theory Spec2Isabelle
  imports Complex_Main "HOL-Library.Sublist" "HOL-Library.Char_ord" "HOL-Library.List_Lexorder"
begin

section \<open>Python strings\<close>

text \<open>
  A Python \<open>str\<close> is modelled as a \<open>string\<close>, one \<open>char\<close> per code point; the model
  covers the code points below 256 (ASCII and Latin-1), for which the character classes
  below are the ones of CPython: \<open>str.isspace\<close> (also the \<open>\s\<close> of \<open>re\<close>), the decimal
  digits (\<open>\d\<close>), the word characters (\<open>\w\<close>: alphanumerics and the underscore) and
  \<open>str.lower\<close>, which keeps the length of every such string.
\<close>

definition code :: "char \<Rightarrow> nat" where
  "code c = of_char c"

definition is_space :: "char \<Rightarrow> bool" where
  "is_space c = (code c \<in> {9, 10, 11, 12, 13, 28, 29, 30, 31, 32, 133, 160})"

definition is_digit :: "char \<Rightarrow> bool" where
  "is_digit c = (48 \<le> code c \<and> code c \<le> 57)"

definition is_word :: "char \<Rightarrow> bool" where
  "is_word c = (let n = code c in
     (48 \<le> n \<and> n \<le> 57) \<or> (65 \<le> n \<and> n \<le> 90) \<or> n = 95 \<or> (97 \<le> n \<and> n \<le> 122)
     \<or> n \<in> {170, 178, 179, 181, 185, 186, 188, 189, 190}
     \<or> (192 \<le> n \<and> n \<le> 214) \<or> (216 \<le> n \<and> n \<le> 246) \<or> 248 \<le> n)"

definition lower_char :: "char \<Rightarrow> char" where
  "lower_char c = (let n = code c in
     if (65 \<le> n \<and> n \<le> 90) \<or> (192 \<le> n \<and> n \<le> 222 \<and> n \<noteq> 215)
     then char_of (n + 32) else c)"

definition lower :: "string \<Rightarrow> string" where
  "lower s = map lower_char s"

definition newline :: char where
  "newline = CHR 0x0A"

text \<open>\<open>text[start:end]\<close> for \<open>0 \<le> start\<close>, \<open>0 \<le> end\<close>.\<close>

definition slice :: "string \<Rightarrow> nat \<Rightarrow> nat \<Rightarrow> string" where
  "slice s start end = take (end - start) (drop start s)"

text \<open>\<open>s.strip()\<close>, \<open>s.split()\<close> without arguments, \<open>sep.join(xs)\<close>.\<close>

definition lstrip :: "string \<Rightarrow> string" where
  "lstrip s = dropWhile is_space s"

definition strip :: "string \<Rightarrow> string" where
  "strip s = rev (dropWhile is_space (rev (dropWhile is_space s)))"

fun split_acc :: "string \<Rightarrow> string \<Rightarrow> string list" where
  "split_acc w [] = (if w = [] then [] else [rev w])"
| "split_acc w (c # s) =
     (if is_space c then (if w = [] then split_acc [] s else rev w # split_acc [] s)
      else split_acc (c # w) s)"

definition split :: "string \<Rightarrow> string list" where
  "split s = split_acc [] s"

fun join :: "string \<Rightarrow> string list \<Rightarrow> string" where
  "join sep [] = []"
| "join sep [x] = x"
| "join sep (x # y # xs) = x @ sep @ join sep (y # xs)"

text \<open>\<open>' '.join(s.split())\<close>: the whitespace clean-up applied to every context window.\<close>

definition collapse :: "string \<Rightarrow> string" where
  "collapse s = join '' '' (split s)"

subsection \<open>Code equations on the bits of a character\<close>

text \<open>
  The classes and \<open>lower_char\<close> are decided on the eight bits of a character, so that
  concrete texts evaluate quickly; every equation is checked against the definition on
  all 256 characters.
\<close>

lemma is_space_code [code]:
  "is_space (Char b0 b1 b2 b3 b4 b5 b6 b7) =
     (if b7 then (\<not> b6 \<and> (if b5 then (\<not> b4 \<and> (\<not> b3 \<and> (\<not>
     b2 \<and> (\<not> b1 \<and> \<not> b0)))) else (\<not> b4 \<and> (\<not> b3 \<and> (b2
     \<and> (\<not> b1 \<and> b0)))))) else (\<not> b6 \<and> (if b5 then (\<not> b4 \<and>
     (\<not> b3 \<and> (\<not> b2 \<and> (\<not> b1 \<and> \<not> b0)))) else (if b4 then
     (b3 \<and> b2) else (b3 \<and> (if b2 then \<not> b1 else (b1 \<or> b0)))))))"
  by (cases b0; cases b1; cases b2; cases b3; cases b4; cases b5; cases b6; cases b7;
      simp add: is_space_def code_def)

lemma is_digit_code [code]:
  "is_digit (Char b0 b1 b2 b3 b4 b5 b6 b7) =
     (\<not> b7 \<and> (\<not> b6 \<and> (b5 \<and> (b4 \<and> (\<not> b3 \<or> (\<not> b2
     \<and> \<not> b1))))))"
  by (cases b0; cases b1; cases b2; cases b3; cases b4; cases b5; cases b6; cases b7;
      simp add: is_digit_def code_def)

lemma is_word_code [code]:
  "is_word (Char b0 b1 b2 b3 b4 b5 b6 b7) =
     (if b7 then (if b6 then (\<not> b4 \<or> (b3 \<or> (\<not> b2 \<or> (\<not> b1 \<or>
     \<not> b0)))) else (b5 \<and> (if b4 then (if b3 then (if b2 then (\<not> b1 \<or>
     \<not> b0) else (if b1 then \<not> b0 else b0)) else (if b2 then (\<not> b1 \<and> b0)
     else b1)) else (b3 \<and> (\<not> b2 \<and> (b1 \<and> \<not> b0)))))) else (if b6
     then (if b5 then (if b4 then (\<not> b3 \<or> (\<not> b2 \<and> (\<not> b1 \<or>
     \<not> b0))) else (b3 \<or> (b2 \<or> (b1 \<or> b0)))) else (if b4 then (\<not> b3
     \<or> (if b2 then (b1 \<and> b0) else (\<not> b1 \<or> \<not> b0))) else (b3 \<or> (b2
     \<or> (b1 \<or> b0))))) else (b5 \<and> (b4 \<and> (\<not> b3 \<or> (\<not> b2 \<and>
     \<not> b1))))))"
  by (cases b0; cases b1; cases b2; cases b3; cases b4; cases b5; cases b6; cases b7;
      simp add: is_word_def code_def Let_def)

lemma lower_char_code [code]:
  "lower_char (Char b0 b1 b2 b3 b4 b5 b6 b7) =
     (if
        (if b7 then (b6 \<and> (\<not> b5 \<and> (\<not> b4 \<or> (\<not> b2 \<or> (\<not>
        b1 \<or> \<not> b0))))) else (b6 \<and> (\<not> b5 \<and> (if b4 then (\<not> b3
        \<or> (\<not> b2 \<and> (\<not> b1 \<or> \<not> b0))) else (b3 \<or> (b2 \<or> (b1
        \<or> b0)))))))
      then Char b0 b1 b2 b3 b4 True b6 b7 else Char b0 b1 b2 b3 b4 b5 b6 b7)"
  by (cases b0; cases b1; cases b2; cases b3; cases b4; cases b5; cases b6; cases b7;
      simp add: lower_char_def code_def Let_def char_of_def bit_Suc_0_iff)

section \<open>Regular expressions of the \<open>re\<close> module\<close>

text \<open>
  The patterns of the scripts use literals, the classes \<open>\d\<close>, \<open>\s\<close> and \<open>[\d,]\<close>, the dot,
  greedy \<open>*\<close>, \<open>+\<close>, \<open>?\<close> and \<open>{n}\<close>, the lazy \<open>+?\<close>, alternation, groups and \<open>\b\<close>.
  A configuration of the matcher is the text before the position (reversed), the text
  after it, and the groups closed so far. \<open>ms ic r cf\<close> lists the configurations in which
  a match of \<open>r\<close> started at \<open>cf\<close> can end, in the order in which the backtracking matcher
  of \<open>re\<close> tries them; \<open>ic\<close> is the flag \<open>re.IGNORECASE\<close>. An iteration of a star that
  consumes nothing is dropped (none of the patterns of the scripts has one).
\<close>

datatype cset = CChar char | CDigit | CSpace | CWord

datatype regex =
    Eps
  | Chr char
  | Dot
  | Class "cset list"
  | WordB
  | Seq regex regex
  | Alt regex regex
  | Star regex
  | LazyStar regex
  | Group nat regex

type_synonym conf = "string \<times> string \<times> (nat \<times> string) list"

definition char_eq :: "bool \<Rightarrow> char \<Rightarrow> char \<Rightarrow> bool" where
  "char_eq ic c x = (if ic then lower_char c = lower_char x else c = x)"

fun in_cset :: "bool \<Rightarrow> char \<Rightarrow> cset \<Rightarrow> bool" where
  "in_cset ic x (CChar c) = char_eq ic c x"
| "in_cset ic x CDigit = is_digit x"
| "in_cset ic x CSpace = is_space x"
| "in_cset ic x CWord = is_word x"

fun step :: "(char \<Rightarrow> bool) \<Rightarrow> conf \<Rightarrow> conf list" where
  "step P (b, [], g) = []"
| "step P (b, x # s, g) = (if P x then [(x # b, s, g)] else [])"

text \<open>\<open>\b\<close>: exactly one of the characters around the position is a word character.\<close>

fun word_before :: "string \<Rightarrow> bool" where
  "word_before [] = False"
| "word_before (x # b) = is_word x"

definition at_boundary :: "string \<Rightarrow> string \<Rightarrow> bool" where
  "at_boundary b s = (word_before b \<noteq> word_before s)"

definition shorter :: "conf \<Rightarrow> conf \<Rightarrow> bool" where
  "shorter cf cf' = (length (fst (snd cf')) < length (fst (snd cf)))"

fun close_group :: "nat \<Rightarrow> string \<Rightarrow> conf \<Rightarrow> conf" where
  "close_group n b (b', s', g') = (b', s', g' @ [(n, rev (take (length b' - length b) b'))])"

function ms :: "bool \<Rightarrow> regex \<Rightarrow> conf \<Rightarrow> conf list" where
  "ms ic Eps cf = [cf]"
| "ms ic (Chr c) cf = step (char_eq ic c) cf"
| "ms ic Dot cf = step (\<lambda>x. x \<noteq> newline) cf"
| "ms ic (Class cs) cf = step (\<lambda>x. \<exists>k \<in> set cs. in_cset ic x k) cf"
| "ms ic WordB cf = (if at_boundary (fst cf) (fst (snd cf)) then [cf] else [])"
| "ms ic (Seq r1 r2) cf = concat (map (ms ic r2) (ms ic r1 cf))"
| "ms ic (Alt r1 r2) cf = ms ic r1 cf @ ms ic r2 cf"
| "ms ic (Star r) cf = concat (map (ms ic (Star r)) (filter (shorter cf) (ms ic r cf))) @ [cf]"
| "ms ic (LazyStar r) cf =
     cf # concat (map (ms ic (LazyStar r)) (filter (shorter cf) (ms ic r cf)))"
| "ms ic (Group n r) cf = map (close_group n (fst cf)) (ms ic r cf)"
  by pat_completeness auto
termination
  by (relation "inv_image (measure size <*lex*> measure (\<lambda>cf. length (fst (snd cf))))
                  (\<lambda>(ic, r, cf). (r, cf))")
     (auto simp: shorter_def)

text \<open>The two star equations unfold themselves, so they are applied by hand.\<close>

declare ms.simps(8) [simp del] ms.simps(9) [simp del]

lemma step_suffix:
  "cf' \<in> set (step P cf) \<Longrightarrow> \<exists>x. fst (snd cf) = x # fst (snd cf') \<and> fst cf' = x # fst cf"
  by (cases "(P, cf)" rule: step.cases) (simp_all split: if_splits)

lemma ms_suffix:
  "cf' \<in> set (ms ic r cf) \<Longrightarrow> \<exists>m. fst (snd cf) = m @ fst (snd cf') \<and> fst cf' = rev m @ fst cf"
proof (induction ic r cf arbitrary: cf' rule: ms.induct)
  case (1 ic cf)
  then show ?case by simp
next
  case (2 ic c cf)
  then have "cf' \<in> set (step (char_eq ic c) cf)" by simp
  from step_suffix[OF this] obtain x where "fst (snd cf) = [x] @ fst (snd cf')" "fst cf' = rev [x] @ fst cf"
    by auto
  then show ?case by blast
next
  case (3 ic cf)
  then have "cf' \<in> set (step (\<lambda>x. x \<noteq> newline) cf)" by simp
  from step_suffix[OF this] obtain x where "fst (snd cf) = [x] @ fst (snd cf')" "fst cf' = rev [x] @ fst cf"
    by auto
  then show ?case by blast
next
  case (4 ic cs cf)
  then have "cf' \<in> set (step (\<lambda>x. \<exists>k \<in> set cs. in_cset ic x k) cf)" by simp
  from step_suffix[OF this] obtain x where "fst (snd cf) = [x] @ fst (snd cf')" "fst cf' = rev [x] @ fst cf"
    by auto
  then show ?case by blast
next
  case (5 ic cf)
  then have "cf' = cf" by (simp split: if_splits)
  then show ?case by simp
next
  case (6 ic r1 r2 cf)
  from "6.prems" obtain c1 where c1: "c1 \<in> set (ms ic r1 cf)" and c2: "cf' \<in> set (ms ic r2 c1)"
    by auto
  from "6.IH"(1)[OF c1] obtain m1 where m1: "fst (snd cf) = m1 @ fst (snd c1)" "fst c1 = rev m1 @ fst cf"
    by blast
  from "6.IH"(2)[OF c1 c2] obtain m2 where m2: "fst (snd c1) = m2 @ fst (snd cf')" "fst cf' = rev m2 @ fst c1"
    by blast
  from m1 m2 have "fst (snd cf) = (m1 @ m2) @ fst (snd cf')" "fst cf' = rev (m1 @ m2) @ fst cf"
    by simp_all
  then show ?case by blast
next
  case (7 ic r1 r2 cf)
  from "7.prems" have "cf' \<in> set (ms ic r1 cf) \<or> cf' \<in> set (ms ic r2 cf)" by simp
  with "7.IH" show ?case by blast
next
  case (8 ic r cf)
  show ?case
  proof (cases "cf' = cf")
    case True
    then show ?thesis by simp
  next
    case False
    from "8.prems" have "cf' \<in> set (concat (map (ms ic (Star r)) (filter (shorter cf) (ms ic r cf))) @ [cf])"
      by (subst (asm) ms.simps(8)) simp
    with False obtain c1 where c1: "c1 \<in> set (ms ic r cf)" and sh: "shorter cf c1"
      and c2: "cf' \<in> set (ms ic (Star r) c1)"
      by auto
    from c1 sh have f: "c1 \<in> set (filter (shorter cf) (ms ic r cf))" by simp
    from "8.IH"(1)[OF c1] obtain m1 where m1: "fst (snd cf) = m1 @ fst (snd c1)" "fst c1 = rev m1 @ fst cf"
      by blast
    from "8.IH"(2)[OF f c2] obtain m2 where m2: "fst (snd c1) = m2 @ fst (snd cf')" "fst cf' = rev m2 @ fst c1"
      by blast
    from m1 m2 have "fst (snd cf) = (m1 @ m2) @ fst (snd cf')" "fst cf' = rev (m1 @ m2) @ fst cf"
      by simp_all
    then show ?thesis by blast
  qed
next
  case (9 ic r cf)
  show ?case
  proof (cases "cf' = cf")
    case True
    then show ?thesis by simp
  next
    case False
    from "9.prems" have "cf' \<in> set (cf # concat (map (ms ic (LazyStar r)) (filter (shorter cf) (ms ic r cf))))"
      by (subst (asm) ms.simps(9)) simp
    with False obtain c1 where c1: "c1 \<in> set (ms ic r cf)" and sh: "shorter cf c1"
      and c2: "cf' \<in> set (ms ic (LazyStar r) c1)"
      by auto
    from c1 sh have f: "c1 \<in> set (filter (shorter cf) (ms ic r cf))" by simp
    from "9.IH"(1)[OF c1] obtain m1 where m1: "fst (snd cf) = m1 @ fst (snd c1)" "fst c1 = rev m1 @ fst cf"
      by blast
    from "9.IH"(2)[OF f c2] obtain m2 where m2: "fst (snd c1) = m2 @ fst (snd cf')" "fst cf' = rev m2 @ fst c1"
      by blast
    from m1 m2 have "fst (snd cf) = (m1 @ m2) @ fst (snd cf')" "fst cf' = rev (m1 @ m2) @ fst cf"
      by simp_all
    then show ?thesis by blast
  qed
next
  case (10 ic n r cf)
  from "10.prems" obtain c1 where c1: "c1 \<in> set (ms ic r cf)"
    and e: "cf' = close_group n (fst cf) c1"
    by auto
  from e have "fst cf' = fst c1" "fst (snd cf') = fst (snd c1)" by (cases c1; simp)+
  with "10.IH"[OF c1] show ?case by simp
qed

lemma ms_length:
  "cf' \<in> set (ms ic r cf) \<Longrightarrow> length (fst (snd cf')) \<le> length (fst (snd cf))"
  using ms_suffix [of cf' ic r cf] by auto

subsection \<open>\<open>re.search\<close>, \<open>re.finditer\<close>, \<open>re.findall\<close>, \<open>re.split\<close>\<close>

text \<open>
  A match object: the text before the match (reversed), the matched text
  (\<open>match.group()\<close>), the text after it and the groups. \<open>match.start()\<close> is the length of
  the text before, \<open>match.end()\<close> adds the length of the match.
\<close>

record rmatch =
  m_pre :: string
  m_txt :: string
  m_post :: string
  m_groups :: "(nat \<times> string) list"

definition m_start :: "rmatch \<Rightarrow> nat" where
  "m_start m = length (m_pre m)"

definition m_end :: "rmatch \<Rightarrow> nat" where
  "m_end m = length (m_pre m) + length (m_txt m)"

text \<open>\<open>match.group(n)\<close>: \<open>None\<close> when the group took no part in the match.\<close>

definition m_group :: "rmatch \<Rightarrow> nat \<Rightarrow> string option" where
  "m_group m n = map_of (rev (m_groups m)) n"

fun mk_match :: "string \<Rightarrow> string \<Rightarrow> conf \<Rightarrow> rmatch" where
  "mk_match b s (b', s', g') =
     \<lparr>m_pre = b, m_txt = take (length s - length s') s, m_post = s', m_groups = g'\<rparr>"

text \<open>
  The first way to match at a position; \<open>ma\<close> is set after an empty match, when the next
  match must not be empty at the same position.
\<close>

definition match_here :: "bool \<Rightarrow> regex \<Rightarrow> bool \<Rightarrow> string \<Rightarrow> string \<Rightarrow> rmatch option" where
  "match_here ic r ma b s =
     (case filter (\<lambda>cf. \<not> ma \<or> shorter (b, s, []) cf) (ms ic r (b, s, [])) of
        [] \<Rightarrow> None
      | cf # _ \<Rightarrow> Some (mk_match b s cf))"

fun search_from :: "bool \<Rightarrow> regex \<Rightarrow> bool \<Rightarrow> string \<Rightarrow> string \<Rightarrow> rmatch option" where
  "search_from ic r ma b [] = match_here ic r ma b []"
| "search_from ic r ma b (c # s) =
     (case match_here ic r ma b (c # s) of
        Some m \<Rightarrow> Some m
      | None \<Rightarrow> search_from ic r False (c # b) s)"

definition search :: "bool \<Rightarrow> regex \<Rightarrow> string \<Rightarrow> rmatch option" where
  "search ic r s = search_from ic r False [] s"

lemma match_here_length:
  assumes "match_here ic r ma b s = Some m"
  shows "length (m_txt m) + length (m_post m) = length s"
    and "ma \<Longrightarrow> length (m_post m) < length s"
    and "m_pre m = b"
proof -
  from assms obtain cf cfs where
    f: "filter (\<lambda>cf. \<not> ma \<or> shorter (b, s, []) cf) (ms ic r (b, s, [])) = cf # cfs"
    and m: "m = mk_match b s cf"
    by (auto simp: match_here_def split: list.splits)
  from f have "cf \<in> set (filter (\<lambda>cf. \<not> ma \<or> shorter (b, s, []) cf) (ms ic r (b, s, [])))"
    by simp
  then have mem: "cf \<in> set (ms ic r (b, s, []))" and sh: "ma \<longrightarrow> shorter (b, s, []) cf"
    by auto
  from ms_length[OF mem] have le: "length (fst (snd cf)) \<le> length s" by simp
  obtain b' s' g' where cf: "cf = (b', s', g')" by (cases cf)
  from le cf m show "length (m_txt m) + length (m_post m) = length s" by simp
  from sh cf m show "ma \<Longrightarrow> length (m_post m) < length s" by (simp add: shorter_def)
  from cf m show "m_pre m = b" by simp
qed

lemma search_from_length:
  "search_from ic r ma b s = Some m \<Longrightarrow>
     length (m_txt m) + length (m_post m) \<le> length s \<and> (ma \<longrightarrow> length (m_post m) < length s)"
proof (induction s arbitrary: ma b)
  case Nil
  then have mh: "match_here ic r ma b [] = Some m" by simp
  from match_here_length(1)[OF mh] match_here_length(2)[OF mh] show ?case by auto
next
  case (Cons c s)
  show ?case
  proof (cases "match_here ic r ma b (c # s)")
    case None
    with Cons.prems have "search_from ic r False (c # b) s = Some m" by simp
    from Cons.IH[OF this] show ?thesis by simp
  next
    case (Some m')
    with Cons.prems have "m' = m" by simp
    with Some have mh: "match_here ic r ma b (c # s) = Some m" by simp
    from match_here_length(1)[OF mh] match_here_length(2)[OF mh] show ?thesis by auto
  qed
qed

function finditer_from :: "bool \<Rightarrow> regex \<Rightarrow> bool \<Rightarrow> string \<Rightarrow> string \<Rightarrow> rmatch list" where
  "finditer_from ic r ma b s =
     (case search_from ic r ma b s of
        None \<Rightarrow> []
      | Some m \<Rightarrow> m # finditer_from ic r (m_txt m = []) (rev (m_txt m) @ m_pre m) (m_post m))"
  by pat_completeness auto
termination
proof (relation "measure (\<lambda>(ic, r, ma, b, s). 2 * length s + (if ma then 0 else 1))", goal_cases)
  case 1
  then show ?case by simp
next
  case (2 ic r ma b s m)
  from search_from_length[OF 2] show ?case by (cases "m_txt m") auto
qed

declare finditer_from.simps [simp del]

definition finditer :: "bool \<Rightarrow> regex \<Rightarrow> string \<Rightarrow> rmatch list" where
  "finditer ic r s = finditer_from ic r False [] s"

text \<open>\<open>re.findall\<close> for a pattern with one group: the group of every match.\<close>

definition findall1 :: "bool \<Rightarrow> regex \<Rightarrow> string \<Rightarrow> string list" where
  "findall1 ic r s = map (\<lambda>m. case m_group m 1 of None \<Rightarrow> [] | Some x \<Rightarrow> x) (finditer ic r s)"

text \<open>
  \<open>re.split\<close> for a pattern with \<open>n\<close> groups: the text between the matches, and after
  each of them the groups of the match that follows (\<open>None\<close> for a group that took no
  part).
\<close>

fun split_pieces :: "nat \<Rightarrow> nat \<Rightarrow> string \<Rightarrow> rmatch list \<Rightarrow> string option list" where
  "split_pieces n pos s [] = [Some (drop pos s)]"
| "split_pieces n pos s (m # ms') =
     Some (slice s pos (m_start m)) # map (m_group m) [1..<Suc n] @ split_pieces n (m_end m) s ms'"

definition re_split :: "nat \<Rightarrow> regex \<Rightarrow> string \<Rightarrow> string option list" where
  "re_split n r s = split_pieces n 0 s (finditer False r s)"

text \<open>Building patterns: a literal string (also \<open>re.escape\<close>), \<open>r+\<close>, \<open>r?\<close>, \<open>r+?\<close>, \<open>r{n}\<close>.\<close>

fun seqs :: "regex list \<Rightarrow> regex" where
  "seqs [] = Eps"
| "seqs [r] = r"
| "seqs (r # rs) = Seq r (seqs rs)"

definition lit :: "string \<Rightarrow> regex" where
  "lit w = seqs (map Chr w)"

definition re_escape :: "string \<Rightarrow> regex" where
  "re_escape w = lit w"

definition Plus :: "regex \<Rightarrow> regex" where
  "Plus r = Seq r (Star r)"

definition Opt :: "regex \<Rightarrow> regex" where
  "Opt r = Alt r Eps"

definition LazyPlus :: "regex \<Rightarrow> regex" where
  "LazyPlus r = Seq r (LazyStar r)"

definition Times :: "nat \<Rightarrow> regex \<Rightarrow> regex" where
  "Times n r = seqs (replicate n r)"

definition Digit :: regex where
  "Digit = Class [CDigit]"

definition Space :: regex where
  "Space = Class [CSpace]"

section \<open>Stage 2: the data model of \<open>03_esg_data_extractor.py\<close>\<close>

text \<open>
  A page as \<open>parse_text_file\<close> returns it (the key \<open>'text'\<close> is the field \<open>page_text\<close>),
  and the four kinds of rows (the key \<open>'context'\<close> of a language row is \<open>lang_context\<close>). The keys \<open>year\<close>, \<open>document\<close> and \<open>page_number\<close> are common
  to all rows.
\<close>

record page =
  page_number :: nat
  total_pages :: nat
  page_text :: string

record entry =
  year :: string
  document :: string
  page_number :: nat

record target_entry = entry +
  source_file :: string
  target_text :: string
  percentages :: string
  target_years :: string
  keyword_matched :: string

record language_entry = entry +
  commitment_strength :: string
  phrase :: string
  lang_context :: string

record initiative_entry = entry +
  initiative_text :: string
  keyword_matched :: string
  investment_amount :: string

record impact_entry = entry +
  impact_area :: string
  keyword :: string
  occurrence_count :: nat
  example_context :: string

text \<open>
  The metadata dictionary, in the order in which its keys are set, and
  \<open>metadata.get(key, 'Unknown')\<close>.
\<close>

type_synonym metadata = "(string \<times> string) list"

definition md_get :: "metadata \<Rightarrow> string \<Rightarrow> string" where
  "md_get md k = (case map_of md k of None \<Rightarrow> ''Unknown'' | Some v \<Rightarrow> v)"

subsection \<open>\<open>define_patterns\<close>\<close>

definition target_keywords :: "regex list" where
  "target_keywords =
    [lit ''target'',
     lit ''goal'',
     lit ''objective'',
     lit ''aim to'',
     seqs [lit ''reduce'', Star Dot, lit ''by '', Plus Digit, Chr CHR ''%''],
     seqs [lit ''achieve'', Star Dot, lit ''by '', Times 4 Digit],
     seqs [lit ''reach'', Star Dot, lit ''by '', Times 4 Digit],
     seqs [Plus Digit, lit ''% reduction''],
     lit ''net zero'',
     lit ''carbon neutral'',
     lit ''science-based target'']"

definition commitment_strong :: "string list" where
  "commitment_strong =
    [''committed to'', ''will achieve'', ''will reduce'', ''will reach'',
     ''pledge to'', ''determined to'', ''dedicated to'', ''have committed'']"

definition commitment_moderate :: "string list" where
  "commitment_moderate =
    [''plan to'', ''intend to'', ''aim to'', ''working to'', ''seeking to'',
     ''strive to'', ''expect to'', ''focused on'']"

definition commitment_weak :: "string list" where
  "commitment_weak =
    [''aspire to'', ''hope to'', ''may'', ''could'', ''exploring'',
     ''considering'', ''evaluating'', ''subject to'', ''dependent on'']"

definition initiative_keywords :: "regex list" where
  "initiative_keywords =
    [lit ''program'', lit ''initiative'', lit ''partnership'', lit ''collaboration'',
     lit ''launched'', lit ''announced'', lit ''introduced'', lit ''implemented'',
     seqs [lit ''invested $'', Plus (Class [CDigit, CChar CHR '',''])],
     lit ''investment of'', lit ''million'', lit ''billion'']"

definition impact_keywords :: "(string \<times> string list) list" where
  "impact_keywords =
    [(''Climate/Carbon'', [''emission'', ''carbon'', ''greenhouse gas'', ''GHG'', ''CO2'', ''climate'',
        ''scope 1'', ''scope 2'', ''scope 3'', ''carbon footprint'']),
     (''Water'', [''water'', ''H2O'', ''water use'', ''water consumption'', ''water stewardship'',
        ''water stress'', ''water efficiency'']),
     (''Waste/Circular Economy'', [''waste'', ''recycl'', ''circular'', ''zero waste'', ''landfill'',
        ''reuse'', ''repurpose'', ''end-of-life'']),
     (''Energy'', [''energy'', ''renewable energy'', ''solar'', ''wind'', ''renewable'',
        ''energy efficiency'', ''electricity'']),
     (''Materials'', [''sustainable material'', ''organic cotton'', ''recycled polyester'',
        ''preferred fiber'', ''sustainable sourcing'', ''material innovation'']),
     (''Supply Chain'', [''supplier'', ''supply chain'', ''factory'', ''manufacturing'',
        ''vendor'', ''sourcing'']),
     (''Human Rights/Labor'', [''human rights'', ''labor'', ''worker'', ''fair wage'',
        ''working conditions'', ''child labor'', ''forced labor'']),
     (''Diversity/Equity'', [''diversity'', ''equity'', ''inclusion'', ''DEI'', ''gender'',
        ''racial'', ''equal opportunity'', ''representation'']),
     (''Biodiversity'', [''biodiversity'', ''ecosystem'', ''nature'', ''forest'', ''deforestation'',
        ''land use'', ''habitat'']),
     (''Governance'', [''governance'', ''board'', ''oversight'', ''policy'', ''compliance'',
        ''ethics'', ''transparency'', ''disclosure''])]"

text \<open>
  The numeric patterns that the extraction uses: \<open>(\d+(?:\.\d+)?)\s*%\<close>,
  \<open>\b(20\d{2})\b\<close> and \<open>\$\s*([\d,]+(?:\.\d+)?)\s*(million|billion|M|B)?\<close>.
\<close>

definition percentage_pattern :: regex where
  "percentage_pattern =
     seqs [Group 1 (seqs [Plus Digit, Opt (seqs [Chr CHR ''.'', Plus Digit])]),
           Star Space, Chr CHR ''%'']"

definition year_pattern :: regex where
  "year_pattern = seqs [WordB, Group 1 (seqs [lit ''20'', Times 2 Digit]), WordB]"

definition currency_pattern :: regex where
  "currency_pattern =
     seqs [Chr CHR ''$'', Star Space,
           Group 1 (seqs [Plus (Class [CDigit, CChar CHR '','']),
                          Opt (seqs [Chr CHR ''.'', Plus Digit])]),
           Star Space,
           Opt (Group 2 (Alt (lit ''million'') (Alt (lit ''billion'')
                  (Alt (Chr CHR ''M'') (Chr CHR ''B'')))))]"

subsection \<open>The four extraction passes\<close>

text \<open>
  \<open>text[max(0, match.start() - w) : min(len(text), match.end() + w)]\<close>; the subtraction
  on \<open>nat\<close> stops at 0, as \<open>max(0, _)\<close> does.
\<close>

definition window :: "nat \<Rightarrow> string \<Rightarrow> rmatch \<Rightarrow> string" where
  "window w txt m = slice txt (m_start m - w) (min (length txt) (m_end m + w))"

definition join_or_empty :: "string list \<Rightarrow> string" where
  "join_or_empty xs = (if xs \<noteq> [] then join '', '' xs else [])"

definition target_of_match :: "metadata \<Rightarrow> page \<Rightarrow> rmatch \<Rightarrow> target_entry" where
  "target_of_match md pg m =
     (let context = collapse (strip (window 200 (page_text pg) m));
          percentages = findall1 False percentage_pattern context;
          years = findall1 False year_pattern context
      in \<lparr>year = md_get md ''year'',
          document = md_get md ''document_type'',
          page_number = page.page_number pg,
          source_file = md_get md ''source_file'',
          target_text = take 300 context,
          percentages = join_or_empty percentages,
          target_years = join_or_empty years,
          target_entry.keyword_matched = m_txt m\<rparr>)"

definition targets_of_page :: "metadata \<Rightarrow> page \<Rightarrow> target_entry list" where
  "targets_of_page md pg =
     concat (map (\<lambda>pattern. map (target_of_match md pg) (finditer True pattern (page_text pg)))
                 target_keywords)"

definition language_of_match :: "metadata \<Rightarrow> page \<Rightarrow> string \<Rightarrow> rmatch \<Rightarrow> language_entry" where
  "language_of_match md pg strength m =
     \<lparr>year = md_get md ''year'',
      document = md_get md ''document_type'',
      page_number = page.page_number pg,
      commitment_strength = strength,
      phrase = m_txt m,
      lang_context = take 250 (collapse (window 150 (page_text pg) m))\<rparr>"

definition language_of_phrases :: "metadata \<Rightarrow> page \<Rightarrow> string \<Rightarrow> string list \<Rightarrow> language_entry list" where
  "language_of_phrases md pg strength phrases =
     concat (map (\<lambda>ph. if sublist ph (lower (page_text pg))
                         then map (language_of_match md pg strength)
                                  (finditer True (re_escape ph) (page_text pg))
                         else [])
                 phrases)"

definition language_of_page :: "metadata \<Rightarrow> page \<Rightarrow> language_entry list" where
  "language_of_page md pg =
     language_of_phrases md pg ''Strong'' commitment_strong
     @ language_of_phrases md pg ''Moderate'' commitment_moderate
     @ language_of_phrases md pg ''Weak/Hedging'' commitment_weak"

definition initiative_of_match :: "metadata \<Rightarrow> page \<Rightarrow> rmatch \<Rightarrow> initiative_entry" where
  "initiative_of_match md pg m =
     (let context = collapse (window 200 (page_text pg) m);
          investment_amount =
            (case search False currency_pattern context of None \<Rightarrow> [] | Some cm \<Rightarrow> m_txt cm)
      in \<lparr>year = md_get md ''year'',
          document = md_get md ''document_type'',
          page_number = page.page_number pg,
          initiative_text = take 300 context,
          keyword_matched = m_txt m,
          investment_amount = investment_amount\<rparr>)"

definition initiatives_of_page :: "metadata \<Rightarrow> page \<Rightarrow> initiative_entry list" where
  "initiatives_of_page md pg =
     concat (map (\<lambda>pattern. map (initiative_of_match md pg) (finditer True pattern (page_text pg)))
                 initiative_keywords)"

text \<open>
  The impact areas are matched on the lower-cased page. \<open>impact_of_keyword\<close> is the body
  of the innermost loop: no row without a match, one row otherwise.
\<close>

definition impact_of_keyword :: "metadata \<Rightarrow> page \<Rightarrow> string \<Rightarrow> string \<Rightarrow> impact_entry list" where
  "impact_of_keyword md pg area kw =
     (let txt = lower (page_text pg);
          matches = finditer False (re_escape (lower kw)) txt
      in case matches of
           [] \<Rightarrow> []
         | m # _ \<Rightarrow>
             [\<lparr>year = md_get md ''year'',
               document = md_get md ''document_type'',
               page_number = page.page_number pg,
               impact_area = area,
               keyword = kw,
               occurrence_count = length matches,
               example_context = take 200 (collapse (window 100 txt m))\<rparr>])"

definition impacts_of_page :: "metadata \<Rightarrow> page \<Rightarrow> impact_entry list" where
  "impacts_of_page md pg =
     concat (map (\<lambda>(area, keywords). concat (map (impact_of_keyword md pg area) keywords))
                 impact_keywords)"

text \<open>The state of an \<open>ESGDataExtractor\<close>: the four collections and the console.\<close>

datatype error = OSError | UnicodeDecodeError | ValueError | IndexError | TypeError | AttributeError

datatype console_line =
    Found nat
  | NoFilesFound
  | Processing string
  | ExtractedFrom nat
  | ErrorProcessing string error
  | SavedTargets nat
  | SavedLanguage nat
  | SavedInitiatives nat
  | SavedImpact nat
  | SavedStatistics

record extractor =
  targets_data :: "target_entry list"
  language_data :: "language_entry list"
  initiatives_data :: "initiative_entry list"
  impact_areas_data :: "impact_entry list"
  console :: "console_line list"

definition extract_targets_and_goals :: "page list \<Rightarrow> metadata \<Rightarrow> extractor \<Rightarrow> extractor" where
  "extract_targets_and_goals pages md st =
     st\<lparr>targets_data := targets_data st @ concat (map (targets_of_page md) pages)\<rparr>"

definition extract_language_patterns :: "page list \<Rightarrow> metadata \<Rightarrow> extractor \<Rightarrow> extractor" where
  "extract_language_patterns pages md st =
     st\<lparr>language_data := language_data st @ concat (map (language_of_page md) pages)\<rparr>"

definition extract_initiatives :: "page list \<Rightarrow> metadata \<Rightarrow> extractor \<Rightarrow> extractor" where
  "extract_initiatives pages md st =
     st\<lparr>initiatives_data := initiatives_data st @ concat (map (initiatives_of_page md) pages)\<rparr>"

definition extract_impact_areas :: "page list \<Rightarrow> metadata \<Rightarrow> extractor \<Rightarrow> extractor" where
  "extract_impact_areas pages md st =
     st\<lparr>impact_areas_data := impact_areas_data st @ concat (map (impacts_of_page md) pages)\<rparr>"

subsection \<open>\<open>parse_text_file\<close>\<close>

text \<open>Errors are values: \<open>Inl\<close> is a raised exception.\<close>

definition bind :: "error + 'a \<Rightarrow> ('a \<Rightarrow> error + 'b) \<Rightarrow> error + 'b" where
  "bind x f = (case x of Inl e \<Rightarrow> Inl e | Inr a \<Rightarrow> f a)"

text \<open>
  \<open>str(n)\<close> and \<open>int(s)\<close>. \<open>int\<close> is only applied to a group \<open>(\d+)\<close> of the page marker:
  to \<open>None\<close> it raises \<open>TypeError\<close>, and CPython (3.11 and later) raises \<open>ValueError\<close>
  on more than 4300 digits.
\<close>

definition digit_char :: "nat \<Rightarrow> char" where
  "digit_char d = char_of (48 + d)"

function show_nat :: "nat \<Rightarrow> string" where
  "show_nat n = (if n < 10 then [digit_char n] else show_nat (n div 10) @ [digit_char (n mod 10)])"
  by pat_completeness auto
termination
  by (relation "measure id") auto

declare show_nat.simps [simp del]

definition digit_val :: "char \<Rightarrow> nat" where
  "digit_val c = code c - 48"

definition nat_of_digits :: "string \<Rightarrow> nat" where
  "nat_of_digits s = foldl (\<lambda>n c. 10 * n + digit_val c) 0 s"

definition max_str_digits :: nat where
  "max_str_digits = 4300"

definition py_int :: "string option \<Rightarrow> error + nat" where
  "py_int x =
     (case x of
        None \<Rightarrow> Inl TypeError
      | Some s \<Rightarrow>
          if s = [] \<or> \<not> list_all is_digit s then Inl ValueError
          else if max_str_digits < length s then Inl ValueError
          else Inr (nat_of_digits s))"

text \<open>\<open>xs[i]\<close>.\<close>

definition item :: "'a list \<Rightarrow> nat \<Rightarrow> error + 'a" where
  "item xs i = (if i < length xs then Inr (xs ! i) else Inl IndexError)"

text \<open>
  \<open>re.search(label + r'(.+?)\n', content)\<close>, and \<open>metadata[key] = match.group(1).strip()\<close>
  when there is a match.
\<close>

definition header_pattern :: "string \<Rightarrow> regex" where
  "header_pattern label = seqs [lit label, Group 1 (LazyPlus Dot), Chr newline]"

definition header_field :: "string \<Rightarrow> string \<Rightarrow> string \<Rightarrow> metadata \<Rightarrow> error + metadata" where
  "header_field content label key md =
     (case search False (header_pattern label) content of
        None \<Rightarrow> Inr md
      | Some m \<Rightarrow>
          (case m_group m 1 of
             None \<Rightarrow> Inl AttributeError
           | Some v \<Rightarrow> Inr (md @ [(key, strip v)])))"

definition extract_metadata_from_header :: "string \<Rightarrow> error + metadata" where
  "extract_metadata_from_header content =
     bind (header_field content ''Source File: '' ''source_file'' []) (\<lambda>md.
     bind (header_field content ''Year: '' ''year'' md) (\<lambda>md.
     header_field content ''Document Type: '' ''document_type'' md))"

text \<open>The page marker \<open>={80}\n\[PAGE (\d+) OF (\d+)\]\n={80}\<close>.\<close>

definition page_pattern :: regex where
  "page_pattern =
     seqs [Times 80 (Chr CHR ''=''), Chr newline, lit ''[PAGE '', Group 1 (Plus Digit),
           lit '' OF '', Group 2 (Plus Digit), Chr CHR '']'', Chr newline,
           Times 80 (Chr CHR ''='')]"

text \<open>
  One round of the loop \<open>for i in range(1, len(pages), 3)\<close>. \<open>pages[i + 2]\<close> is a piece of
  text between two markers; the model raises \<open>TypeError\<close> at once if it were a group
  that took no part (\<open>None\<close>), which \<open>re.split\<close> never puts at this index.
\<close>

definition page_at :: "string option list \<Rightarrow> nat \<Rightarrow> error + page" where
  "page_at pages i =
     bind (item pages i) (\<lambda>a. bind (py_int a) (\<lambda>n.
     bind (item pages (i + 1)) (\<lambda>b. bind (py_int b) (\<lambda>t.
     bind (item pages (i + 2)) (\<lambda>c.
       case c of
         None \<Rightarrow> Inl TypeError
       | Some txt \<Rightarrow> Inr \<lparr>page.page_number = n, total_pages = t, page_text = txt\<rparr>)))))"

fun structured_pages :: "string option list \<Rightarrow> nat list \<Rightarrow> error + page list" where
  "structured_pages pages [] = Inr []"
| "structured_pages pages (i # is) =
     (if i + 2 \<le> length pages
      then bind (page_at pages i) (\<lambda>pg. bind (structured_pages pages is) (\<lambda>rest. Inr (pg # rest)))
      else structured_pages pages is)"

text \<open>\<open>range(1, n, 3)\<close>.\<close>

definition range_1_3 :: "nat \<Rightarrow> nat list" where
  "range_1_3 n = filter (\<lambda>i. i mod 3 = 1) [1..<n]"

text \<open>The argument is what opening and reading the file gives: its content, or an error.\<close>

definition parse_text_file :: "error + string \<Rightarrow> error + (metadata \<times> page list)" where
  "parse_text_file file =
     bind file (\<lambda>content.
     bind (extract_metadata_from_header content) (\<lambda>md.
       let pages = re_split 2 page_pattern content in
       bind (structured_pages pages (range_1_3 (length pages))) (\<lambda>structured.
       Inr (md, structured))))"

subsection \<open>\<open>process_all_text_files\<close>, \<open>save_all_data\<close>, \<open>create_summary_statistics\<close>\<close>

text \<open>
  The body of the \<open>try\<close>: the state it leaves behind, and the exception if one was
  raised. The four passes only append to the collections.
\<close>

definition try_file :: "string \<times> (error + string) \<Rightarrow> extractor \<Rightarrow> extractor \<times> error option" where
  "try_file f st =
     (case parse_text_file (snd f) of
        Inl e \<Rightarrow> (st, Some e)
      | Inr (md, pages) \<Rightarrow>
          (let st1 = extract_targets_and_goals pages md st;
               st2 = extract_language_patterns pages md st1;
               st3 = extract_initiatives pages md st2;
               st4 = extract_impact_areas pages md st3
           in (st4\<lparr>console := console st4 @ [ExtractedFrom (length pages)]\<rparr>, None)))"

definition process_file :: "extractor \<Rightarrow> string \<times> (error + string) \<Rightarrow> extractor" where
  "process_file st f =
     (case try_file f (st\<lparr>console := console st @ [Processing (fst f)]\<rparr>) of
        (st', None) \<Rightarrow> st'
      | (st', Some e) \<Rightarrow> st'\<lparr>console := console st' @ [ErrorProcessing (fst f) e]\<rparr>)"

text \<open>
  The files written to the output directory. A CSV file is the rows of its data frame.
  The groupings that \<open>pandas\<close> computes for the statistics (\<open>value_counts\<close>, largest
  first, and the summed counts by area, largest first) are parameters.
\<close>

record pandas =
  value_counts :: "string list \<Rightarrow> (string \<times> nat) list"
  sum_by_area :: "(string \<times> nat) list \<Rightarrow> (string \<times> nat) list"

record outputs =
  targets_csv :: "target_entry list option"
  language_csv :: "language_entry list option"
  initiatives_csv :: "initiative_entry list option"
  impact_csv :: "impact_entry list option"
  statistics_txt :: "string option"

definition no_outputs :: outputs where
  "no_outputs = \<lparr>targets_csv = None, language_csv = None, initiatives_csv = None,
                  impact_csv = None, statistics_txt = None\<rparr>"

definition count_line :: "string \<Rightarrow> nat \<Rightarrow> string" where
  "count_line k c = ''  '' @ k @ '': '' @ show_nat c @ [newline]"

definition mentions_line :: "string \<Rightarrow> nat \<Rightarrow> string" where
  "mentions_line k c = ''  '' @ k @ '': '' @ show_nat c @ '' mentions'' @ [newline]"

definition create_summary_statistics :: "pandas \<Rightarrow> string \<Rightarrow> extractor \<Rightarrow> string" where
  "create_summary_statistics pd now st =
     ''RALPH LAUREN ESG ANALYSIS - EXTRACTION STATISTICS'' @ [newline]
     @ replicate 80 CHR ''='' @ [newline, newline]
     @ ''Extraction Date: '' @ now @ [newline, newline]
     @ ''Total Targets/Goals Extracted: '' @ show_nat (length (targets_data st)) @ [newline]
     @ ''Total Language Patterns Identified: '' @ show_nat (length (language_data st)) @ [newline]
     @ ''Total Initiatives Cataloged: '' @ show_nat (length (initiatives_data st)) @ [newline]
     @ ''Total Impact Area Mentions: '' @ show_nat (length (impact_areas_data st)) @ [newline, newline]
     @ (if targets_data st \<noteq> [] then
          [newline] @ ''Targets by Year:'' @ [newline] @ replicate 40 CHR ''-'' @ [newline]
          @ concat (map (\<lambda>(k, c). count_line k c)
                        (sort_key fst (value_counts pd (map year (targets_data st)))))
        else [])
     @ (if language_data st \<noteq> [] then
          [newline] @ ''Language Patterns by Strength:'' @ [newline] @ replicate 40 CHR ''-'' @ [newline]
          @ concat (map (\<lambda>(k, c). count_line k c)
                        (value_counts pd (map commitment_strength (language_data st))))
        else [])
     @ (if impact_areas_data st \<noteq> [] then
          [newline] @ ''Top Impact Areas Mentioned:'' @ [newline] @ replicate 40 CHR ''-'' @ [newline]
          @ concat (map (\<lambda>(k, c). mentions_line k c)
                        (take 10 (sum_by_area pd
                           (map (\<lambda>r. (impact_area r, occurrence_count r)) (impact_areas_data st)))))
        else [])"

definition save_all_data :: "pandas \<Rightarrow> string \<Rightarrow> extractor \<Rightarrow> extractor \<times> outputs" where
  "save_all_data pd now st =
     (st\<lparr>console := console st
          @ (if targets_data st \<noteq> [] then [SavedTargets (length (targets_data st))] else [])
          @ (if language_data st \<noteq> [] then [SavedLanguage (length (language_data st))] else [])
          @ (if initiatives_data st \<noteq> [] then [SavedInitiatives (length (initiatives_data st))] else [])
          @ (if impact_areas_data st \<noteq> [] then [SavedImpact (length (impact_areas_data st))] else [])
          @ [SavedStatistics]\<rparr>,
      \<lparr>targets_csv = (if targets_data st \<noteq> [] then Some (targets_data st) else None),
       language_csv = (if language_data st \<noteq> [] then Some (language_data st) else None),
       initiatives_csv = (if initiatives_data st \<noteq> [] then Some (initiatives_data st) else None),
       impact_csv = (if impact_areas_data st \<noteq> [] then Some (impact_areas_data st) else None),
       statistics_txt = Some (create_summary_statistics pd now st)\<rparr>)"

text \<open>A new \<open>ESGDataExtractor\<close>, and a run over the text files of the input directory.\<close>

definition init_extractor :: extractor where
  "init_extractor = \<lparr>targets_data = [], language_data = [], initiatives_data = [],
                      impact_areas_data = [], console = []\<rparr>"

definition process_all_text_files ::
  "pandas \<Rightarrow> string \<Rightarrow> (string \<times> (error + string)) list \<Rightarrow> extractor \<Rightarrow> extractor \<times> outputs" where
  "process_all_text_files pd now text_files st =
     (let st0 = st\<lparr>console := console st @ [Found (length text_files)]\<rparr> in
      if text_files = [] then (st0\<lparr>console := console st0 @ [NoFilesFound]\<rparr>, no_outputs)
      else save_all_data pd now (foldl process_file st0 (sort_key fst text_files)))"

section \<open>Properties of the string functions and of the matcher\<close>

lemma split_acc_no_space:
  "\<lbrakk>x \<in> set (split_acc w s); \<forall>c \<in> set w. \<not> is_space c; c \<in> set x\<rbrakk> \<Longrightarrow> \<not> is_space c"
  by (induction w s rule: split_acc.induct) (auto split: if_splits)

lemma join_set: "c \<in> set (join sep xs) \<Longrightarrow> c \<in> set sep \<or> (\<exists>x \<in> set xs. c \<in> set x)"
  by (induction sep xs rule: join.induct) auto

lemma code_inj: "code a = code b \<longleftrightarrow> a = b"
  by (simp add: code_def)

lemma code_less: "code c < 256"
  by (simp add: code_def)

lemma code_lower_char:
  "code (lower_char c) =
     (if (65 \<le> code c \<and> code c \<le> 90) \<or> (192 \<le> code c \<and> code c \<le> 222 \<and> code c \<noteq> 215)
      then code c + 32 else code c)"
proof -
  have "code c + 32 < 256" if "code c \<le> 222"
    using that by simp
  then show ?thesis
    by (auto simp: lower_char_def Let_def code_def)
qed

lemma code_newline: "code newline = 10"
  by (simp add: newline_def code_def)

lemma lower_char_newline: "lower_char newline = newline"
  by (simp add: code_inj[symmetric] code_lower_char code_newline)

lemma lower_char_eq_newline: "lower_char x = newline \<longleftrightarrow> x = newline"
proof
  assume "lower_char x = newline"
  then have "code (lower_char x) = 10" by (simp add: code_newline)
  then have "code x = 10" by (simp add: code_lower_char split: if_splits)
  then show "x = newline" by (simp add: code_inj[symmetric] code_newline)
qed (simp add: lower_char_newline)

lemma char_eq_newline: "char_eq ic newline x \<longleftrightarrow> x = newline"
  using lower_char_eq_newline[of x]
  by (cases ic) (auto simp: char_eq_def lower_char_newline)

lemma newline_is_space: "is_space newline"
  by (simp add: is_space_def newline_def code_def)

lemma collapse_no_newline: "newline \<notin> set (collapse s)"
proof
  assume "newline \<in> set (collapse s)"
  then have "newline \<in> set '' '' \<or> (\<exists>x \<in> set (split s). newline \<in> set x)"
    unfolding collapse_def by (rule join_set)
  moreover have "newline \<notin> set '' ''" by (simp add: newline_def)
  ultimately obtain x where "x \<in> set (split_acc [] s)" "newline \<in> set x"
    by (auto simp: split_def)
  then have "\<not> is_space newline" using split_acc_no_space[of x "[]" s newline] by simp
  then show False using newline_is_space by simp
qed

lemma concat_map_Eps: "concat (map (ms ic Eps) xs) = xs"
  by (induction xs) simp_all

lemma ms_seqs_Cons: "ms ic (seqs (r # rs)) cf = concat (map (ms ic (seqs rs)) (ms ic r cf))"
  by (cases rs) (simp_all add: concat_map_Eps)

lemma step_mem:
  "cf' \<in> set (step P cf) \<Longrightarrow> \<exists>x. P x \<and> fst (snd cf) = x # fst (snd cf')"
  by (cases "(P, cf)" rule: step.cases) (simp_all split: if_splits)

lemma page_pattern_needs_newline:
  assumes "cf' \<in> set (ms ic page_pattern cf)"
  shows "newline \<in> set (fst (snd cf))"
proof -
  from assms obtain c1 c2 where c1: "c1 \<in> set (ms ic (Times 80 (Chr CHR ''='')) cf)"
    and c2: "c2 \<in> set (ms ic (Chr newline) c1)"
    unfolding page_pattern_def by (auto simp: ms_seqs_Cons)
  from c2 have "c2 \<in> set (step (char_eq ic newline) c1)" by simp
  from step_mem[OF this] obtain x where x: "char_eq ic newline x" "fst (snd c1) = x # fst (snd c2)"
    by blast
  from x(1) have "x = newline" by (simp add: char_eq_newline)
  with x(2) have "newline \<in> set (fst (snd c1))" by simp
  moreover from ms_suffix[OF c1] obtain m where "fst (snd cf) = m @ fst (snd c1)" by blast
  ultimately show ?thesis by simp
qed

lemma match_here_mem:
  "match_here ic r ma b s = Some m \<Longrightarrow> \<exists>cf \<in> set (ms ic r (b, s, [])). m = mk_match b s cf"
proof -
  assume "match_here ic r ma b s = Some m"
  then obtain cf cfs where
    f: "filter (\<lambda>cf. \<not> ma \<or> shorter (b, s, []) cf) (ms ic r (b, s, [])) = cf # cfs"
    and m: "m = mk_match b s cf"
    by (auto simp: match_here_def split: list.splits)
  from f have "cf \<in> set (filter (\<lambda>cf. \<not> ma \<or> shorter (b, s, []) cf) (ms ic r (b, s, [])))"
    by simp
  with m show ?thesis by auto
qed

lemma search_from_needs_newline:
  "search_from ic page_pattern ma b s = Some m \<Longrightarrow> newline \<in> set s"
proof (induction s arbitrary: ma b)
  case Nil
  then have "match_here ic page_pattern ma b [] = Some m" by simp
  from match_here_mem[OF this] page_pattern_needs_newline show ?case by fastforce
next
  case (Cons c s)
  show ?case
  proof (cases "match_here ic page_pattern ma b (c # s)")
    case None
    with Cons.prems have "search_from ic page_pattern False (c # b) s = Some m" by simp
    from Cons.IH[OF this] show ?thesis by simp
  next
    case (Some m')
    from match_here_mem[OF this] page_pattern_needs_newline show ?thesis by fastforce
  qed
qed

lemma no_marker_without_newline:
  "newline \<notin> set s \<Longrightarrow> search ic page_pattern s = None"
  using search_from_needs_newline[of ic False "[]" s] by (cases "search ic page_pattern s") (auto simp: search_def)

lemma no_marker_in_collapsed: "search ic page_pattern (take n (collapse s)) = None"
proof (rule no_marker_without_newline)
  show "newline \<notin> set (take n (collapse s))"
    using collapse_no_newline[of s] by (auto dest: in_set_takeD)
qed

section \<open>The context windows\<close>

text \<open>
  Claim C3. Whatever the pages are, the context stored in a row of any of the four
  passes is at most 300 characters long in a target and in an initiative row, 250 in a
  language row and 200 in an impact-area row, and no part of it matches the page marker
  \<open>={80}\n\[PAGE (\d+) OF (\d+)\]\n={80}\<close> by which \<open>parse_text_file\<close> splits a file.
\<close>

theorem context_cap_and_no_page_marker:
  "(rt \<in> set (targets_data (extract_targets_and_goals pages md init_extractor)) \<longrightarrow>
      length (target_text rt) \<le> 300 \<and> search False page_pattern (target_text rt) = None) \<and>
   (rl \<in> set (language_data (extract_language_patterns pages md init_extractor)) \<longrightarrow>
      length (lang_context rl) \<le> 250 \<and> search False page_pattern (lang_context rl) = None) \<and>
   (ri \<in> set (initiatives_data (extract_initiatives pages md init_extractor)) \<longrightarrow>
      length (initiative_text ri) \<le> 300 \<and> search False page_pattern (initiative_text ri) = None) \<and>
   (rp \<in> set (impact_areas_data (extract_impact_areas pages md init_extractor)) \<longrightarrow>
      length (example_context rp) \<le> 200 \<and> search False page_pattern (example_context rp) = None)"
proof (intro conjI impI)
  assume "rt \<in> set (targets_data (extract_targets_and_goals pages md init_extractor))"
  then obtain pg m where rt: "rt = target_of_match md pg m"
    by (auto simp: extract_targets_and_goals_def init_extractor_def targets_of_page_def)
  show "length (target_text rt) \<le> 300"
    by (simp add: rt target_of_match_def Let_def)
  show "search False page_pattern (target_text rt) = None"
    by (simp add: rt target_of_match_def Let_def no_marker_in_collapsed)
next
  assume "rl \<in> set (language_data (extract_language_patterns pages md init_extractor))"
  then obtain pg strength m where rl: "rl = language_of_match md pg strength m"
    by (auto simp: extract_language_patterns_def init_extractor_def language_of_page_def
        language_of_phrases_def split: if_splits)
  show "length (lang_context rl) \<le> 250"
    by (simp add: rl language_of_match_def)
  show "search False page_pattern (lang_context rl) = None"
    by (simp add: rl language_of_match_def no_marker_in_collapsed)
next
  assume "ri \<in> set (initiatives_data (extract_initiatives pages md init_extractor))"
  then obtain pg m where ri: "ri = initiative_of_match md pg m"
    by (auto simp: extract_initiatives_def init_extractor_def initiatives_of_page_def)
  show "length (initiative_text ri) \<le> 300"
    by (simp add: ri initiative_of_match_def Let_def)
  show "search False page_pattern (initiative_text ri) = None"
    by (simp add: ri initiative_of_match_def Let_def no_marker_in_collapsed)
next
  assume "rp \<in> set (impact_areas_data (extract_impact_areas pages md init_extractor))"
  then obtain pg area kw where rp: "rp \<in> set (impact_of_keyword md pg area kw)"
    by (auto simp: extract_impact_areas_def init_extractor_def impacts_of_page_def)
  then obtain m where rp': "example_context rp = take 200 (collapse (window 100 (lower (page_text pg)) m))"
    by (auto simp: impact_of_keyword_def Let_def split: list.splits)
  show "length (example_context rp) \<le> 200"
    by (simp add: rp')
  show "search False page_pattern (example_context rp) = None"
    by (simp add: rp' no_marker_in_collapsed)
qed

definition c3_page :: page where
  "c3_page = \<lparr>page.page_number = 1, total_pages = 1, page_text = ''goal may program water''\<rparr>"

definition c3_target :: target_entry where
  "c3_target = \<lparr>year = ''Unknown'', document = ''Unknown'', page_number = 1,
     source_file = ''Unknown'', target_text = ''goal may program water'', percentages = [],
     target_years = [], target_entry.keyword_matched = ''goal''\<rparr>"

definition c3_language :: language_entry where
  "c3_language = \<lparr>year = ''Unknown'', document = ''Unknown'', page_number = 1,
     commitment_strength = ''Weak/Hedging'', phrase = ''may'',
     lang_context = ''goal may program water''\<rparr>"

definition c3_initiative :: initiative_entry where
  "c3_initiative = \<lparr>year = ''Unknown'', document = ''Unknown'', page_number = 1,
     initiative_text = ''goal may program water'', keyword_matched = ''program'',
     investment_amount = []\<rparr>"

definition c3_impact :: impact_entry where
  "c3_impact = \<lparr>year = ''Unknown'', document = ''Unknown'', page_number = 1,
     impact_area = ''Water'', keyword = ''water'', occurrence_count = 1,
     example_context = ''goal may program water''\<rparr>"

lemma c3_targets_run:
  "targets_data (extract_targets_and_goals [c3_page] [] init_extractor) = [c3_target]"
  unfolding c3_page_def c3_target_def by code_simp

lemma c3_language_run:
  "language_data (extract_language_patterns [c3_page] [] init_extractor) = [c3_language]"
  unfolding c3_page_def c3_language_def by code_simp

lemma c3_initiatives_run:
  "initiatives_data (extract_initiatives [c3_page] [] init_extractor) = [c3_initiative]"
  unfolding c3_page_def c3_initiative_def by code_simp

lemma c3_impact_run:
  "impact_areas_data (extract_impact_areas [c3_page] [] init_extractor) = [c3_impact]"
  unfolding c3_page_def c3_impact_def by code_simp

theorem context_cap_and_no_page_marker_witness:
  "(c3_target \<in> set (targets_data (extract_targets_and_goals [c3_page] [] init_extractor)) \<and>
      length (target_text c3_target) \<le> 300 \<and>
      search False page_pattern (target_text c3_target) = None) \<and>
   (c3_language \<in> set (language_data (extract_language_patterns [c3_page] [] init_extractor)) \<and>
      length (lang_context c3_language) \<le> 250 \<and>
      search False page_pattern (lang_context c3_language) = None) \<and>
   (c3_initiative \<in> set (initiatives_data (extract_initiatives [c3_page] [] init_extractor)) \<and>
      length (initiative_text c3_initiative) \<le> 300 \<and>
      search False page_pattern (initiative_text c3_initiative) = None) \<and>
   (c3_impact \<in> set (impact_areas_data (extract_impact_areas [c3_page] [] init_extractor)) \<and>
      length (example_context c3_impact) \<le> 200 \<and>
      search False page_pattern (example_context c3_impact) = None)"
  using context_cap_and_no_page_marker
          [of c3_target "[c3_page]" "[]" c3_language c3_initiative c3_impact]
  by (simp add: c3_targets_run c3_language_run c3_initiatives_run c3_impact_run)

section \<open>Processing the files\<close>

definition collections ::
  "extractor \<Rightarrow> target_entry list \<times> language_entry list \<times> initiative_entry list \<times> impact_entry list" where
  "collections st = (targets_data st, language_data st, initiatives_data st, impact_areas_data st)"

lemma try_file_parsed:
  assumes "parse_text_file (snd f) = Inr (md, pages)"
  shows "try_file f st =
     (st\<lparr>targets_data := targets_data st @ concat (map (targets_of_page md) pages),
         language_data := language_data st @ concat (map (language_of_page md) pages),
         initiatives_data := initiatives_data st @ concat (map (initiatives_of_page md) pages),
         impact_areas_data := impact_areas_data st @ concat (map (impacts_of_page md) pages),
         console := console st @ [ExtractedFrom (length pages)]\<rparr>, None)"
  using assms
  by (simp add: try_file_def extract_targets_and_goals_def extract_language_patterns_def
      extract_initiatives_def extract_impact_areas_def Let_def)



lemma process_file_parsed:
  assumes "parse_text_file (snd f) = Inr (md, pages)"
  shows "process_file st f =
     st\<lparr>targets_data := targets_data st @ concat (map (targets_of_page md) pages),
        language_data := language_data st @ concat (map (language_of_page md) pages),
        initiatives_data := initiatives_data st @ concat (map (initiatives_of_page md) pages),
        impact_areas_data := impact_areas_data st @ concat (map (impacts_of_page md) pages),
        console := console st @ [Processing (fst f), ExtractedFrom (length pages)]\<rparr>"
  by (simp add: process_file_def try_file_parsed[OF assms])







lemma collections_console [simp]: "collections (st\<lparr>console := c\<rparr>) = collections st"
  by (simp add: collections_def)







text \<open>Stand-ins for \<open>pandas\<close> and for the clock, where a run is evaluated.\<close>

definition plain_pandas :: pandas where
  "plain_pandas =
     \<lparr>value_counts = (\<lambda>xs. map (\<lambda>x. (x, count_list xs x)) (remdups xs)),
      sum_by_area = (\<lambda>xs. map (\<lambda>k. (k, sum_list (map snd (filter (\<lambda>x. fst x = k) xs))))
                               (remdups (map fst xs)))\<rparr>"

definition some_time :: string where
  "some_time = ''2025-11-03 09:30:00''"


section \<open>Provenance of the rows\<close>

lemma targets_of_page_entry:
  "r \<in> set (targets_of_page md pg) \<Longrightarrow>
     entry.page_number r = page.page_number pg \<and> year r = md_get md ''year'' \<and>
     document r = md_get md ''document_type''"
  by (auto simp: targets_of_page_def target_of_match_def Let_def)

lemma language_of_page_entry:
  "r \<in> set (language_of_page md pg) \<Longrightarrow>
     entry.page_number r = page.page_number pg \<and> year r = md_get md ''year'' \<and>
     document r = md_get md ''document_type''"
  by (auto simp: language_of_page_def language_of_phrases_def language_of_match_def
      split: if_splits)

lemma initiatives_of_page_entry:
  "r \<in> set (initiatives_of_page md pg) \<Longrightarrow>
     entry.page_number r = page.page_number pg \<and> year r = md_get md ''year'' \<and>
     document r = md_get md ''document_type''"
  by (auto simp: initiatives_of_page_def initiative_of_match_def Let_def)

lemma impacts_of_page_entry:
  "r \<in> set (impacts_of_page md pg) \<Longrightarrow>
     entry.page_number r = page.page_number pg \<and> year r = md_get md ''year'' \<and>
     document r = md_get md ''document_type''"
  by (auto simp: impacts_of_page_def impact_of_keyword_def Let_def split: list.splits)

text \<open>
  Claim C5. When a file parses to the metadata \<open>md\<close> and the pages \<open>pages\<close>, processing it
  appends to each collection the rows of its pages, page after page, and every row that
  a pass makes from a page carries the number of that page, and as year and document
  the values of \<open>year\<close> and \<open>document_type\<close> in the metadata parsed from the header of the
  file (\<open>'Unknown'\<close> where the header has no such line).
\<close>

theorem rows_carry_their_provenance:
  assumes "parse_text_file (snd f) = Inr (md, pages)"
  shows "targets_data (process_file st f) = targets_data st @ concat (map (targets_of_page md) pages) \<and>
         language_data (process_file st f) = language_data st @ concat (map (language_of_page md) pages) \<and>
         initiatives_data (process_file st f) =
           initiatives_data st @ concat (map (initiatives_of_page md) pages) \<and>
         impact_areas_data (process_file st f) =
           impact_areas_data st @ concat (map (impacts_of_page md) pages) \<and>
         (\<forall>pg.
           (\<forall>r \<in> set (targets_of_page md pg).
              entry.page_number r = page.page_number pg \<and> year r = md_get md ''year'' \<and>
              document r = md_get md ''document_type'') \<and>
           (\<forall>r \<in> set (language_of_page md pg).
              entry.page_number r = page.page_number pg \<and> year r = md_get md ''year'' \<and>
              document r = md_get md ''document_type'') \<and>
           (\<forall>r \<in> set (initiatives_of_page md pg).
              entry.page_number r = page.page_number pg \<and> year r = md_get md ''year'' \<and>
              document r = md_get md ''document_type'') \<and>
           (\<forall>r \<in> set (impacts_of_page md pg).
              entry.page_number r = page.page_number pg \<and> year r = md_get md ''year'' \<and>
              document r = md_get md ''document_type''))"
  using targets_of_page_entry language_of_page_entry initiatives_of_page_entry
    impacts_of_page_entry
  by (simp add: process_file_parsed[OF assms])

definition c5_content :: string where
  "c5_content =
     ''Year: 2023'' @ [newline] @ ''Document Type: 10-K Annual Report'' @ [newline]
     @ replicate 80 CHR ''='' @ [newline] @ ''[PAGE 7 OF 9]'' @ [newline]
     @ replicate 80 CHR ''='' @ [newline] @ ''goal may program water'' @ [newline]"

definition c5_md :: metadata where
  "c5_md = [(''year'', ''2023''), (''document_type'', ''10-K Annual Report'')]"

definition c5_page :: page where
  "c5_page = \<lparr>page.page_number = 7, total_pages = 9,
               page_text = newline # ''goal may program water'' @ [newline]\<rparr>"

lemma c5_parse: "parse_text_file (Inr c5_content) = Inr (c5_md, [c5_page])"
  unfolding c5_content_def c5_md_def c5_page_def by code_simp

definition c5_target :: target_entry where
  "c5_target = \<lparr>year = ''2023'', document = ''10-K Annual Report'', page_number = 7,
     source_file = ''Unknown'', target_text = ''goal may program water'', percentages = [],
     target_years = [], target_entry.keyword_matched = ''goal''\<rparr>"

definition c5_language :: language_entry where
  "c5_language = \<lparr>year = ''2023'', document = ''10-K Annual Report'', page_number = 7,
     commitment_strength = ''Weak/Hedging'', phrase = ''may'',
     lang_context = ''goal may program water''\<rparr>"

definition c5_initiative :: initiative_entry where
  "c5_initiative = \<lparr>year = ''2023'', document = ''10-K Annual Report'', page_number = 7,
     initiative_text = ''goal may program water'', keyword_matched = ''program'',
     investment_amount = []\<rparr>"

definition c5_impact :: impact_entry where
  "c5_impact = \<lparr>year = ''2023'', document = ''10-K Annual Report'', page_number = 7,
     impact_area = ''Water'', keyword = ''water'', occurrence_count = 1,
     example_context = ''goal may program water''\<rparr>"

lemma c5_targets: "targets_of_page c5_md c5_page = [c5_target]"
  unfolding c5_md_def c5_page_def c5_target_def by code_simp

lemma c5_languages: "language_of_page c5_md c5_page = [c5_language]"
  unfolding c5_md_def c5_page_def c5_language_def by code_simp

lemma c5_initiatives: "initiatives_of_page c5_md c5_page = [c5_initiative]"
  unfolding c5_md_def c5_page_def c5_initiative_def by code_simp

lemma c5_impacts: "impacts_of_page c5_md c5_page = [c5_impact]"
  unfolding c5_md_def c5_page_def c5_impact_def by code_simp

theorem rows_carry_their_provenance_witness:
  "parse_text_file (snd (''2023_10K_extracted.txt'', Inr c5_content)) = Inr (c5_md, [c5_page]) \<and>
   targets_data (process_file init_extractor (''2023_10K_extracted.txt'', Inr c5_content)) = [c5_target] \<and>
   language_data (process_file init_extractor (''2023_10K_extracted.txt'', Inr c5_content)) = [c5_language] \<and>
   initiatives_data (process_file init_extractor (''2023_10K_extracted.txt'', Inr c5_content)) = [c5_initiative] \<and>
   impact_areas_data (process_file init_extractor (''2023_10K_extracted.txt'', Inr c5_content)) = [c5_impact] \<and>
   entry.page_number c5_target = page.page_number c5_page \<and> year c5_target = ''2023'' \<and>
   document c5_target = ''10-K Annual Report'' \<and>
   entry.page_number c5_language = page.page_number c5_page \<and> year c5_language = ''2023'' \<and>
   document c5_language = ''10-K Annual Report'' \<and>
   entry.page_number c5_initiative = page.page_number c5_page \<and> year c5_initiative = ''2023'' \<and>
   document c5_initiative = ''10-K Annual Report'' \<and>
   entry.page_number c5_impact = page.page_number c5_page \<and> year c5_impact = ''2023'' \<and>
   document c5_impact = ''10-K Annual Report''"
proof -
  have h: "parse_text_file (snd (''2023_10K_extracted.txt'', Inr c5_content)) = Inr (c5_md, [c5_page])"
    by (simp add: c5_parse)
  from rows_carry_their_provenance[OF h, of init_extractor]
  have rows:
    "targets_data (process_file init_extractor (''2023_10K_extracted.txt'', Inr c5_content)) = [c5_target]"
    "language_data (process_file init_extractor (''2023_10K_extracted.txt'', Inr c5_content)) = [c5_language]"
    "initiatives_data (process_file init_extractor (''2023_10K_extracted.txt'', Inr c5_content)) = [c5_initiative]"
    "impact_areas_data (process_file init_extractor (''2023_10K_extracted.txt'', Inr c5_content)) = [c5_impact]"
    by (simp_all add: c5_targets c5_languages c5_initiatives c5_impacts init_extractor_def)
  have fields:
    "entry.page_number c5_target = page.page_number c5_page" "year c5_target = ''2023''"
    "document c5_target = ''10-K Annual Report''"
    "entry.page_number c5_language = page.page_number c5_page" "year c5_language = ''2023''"
    "document c5_language = ''10-K Annual Report''"
    "entry.page_number c5_initiative = page.page_number c5_page" "year c5_initiative = ''2023''"
    "document c5_initiative = ''10-K Annual Report''"
    "entry.page_number c5_impact = page.page_number c5_page" "year c5_impact = ''2023''"
    "document c5_impact = ''10-K Annual Report''"
    by (simp_all add: c5_target_def c5_language_def c5_initiative_def c5_impact_def c5_page_def)
  from h rows fields show ?thesis by simp
qed

section \<open>A document without any match\<close>

text \<open>No pattern and no keyword of the four sets matches on the page.\<close>

definition page_without_match :: "page \<Rightarrow> bool" where
  "page_without_match pg =
     (list_all (\<lambda>p. finditer True p (page_text pg) = []) target_keywords \<and>
      list_all (\<lambda>ph. finditer True (re_escape ph) (page_text pg) = [])
               (commitment_strong @ commitment_moderate @ commitment_weak) \<and>
      list_all (\<lambda>p. finditer True p (page_text pg) = []) initiative_keywords \<and>
      list_all (\<lambda>(area, keywords).
                  list_all (\<lambda>kw. finditer False (re_escape (lower kw)) (lower (page_text pg)) = [])
                           keywords)
               impact_keywords)"

lemma concat_map_empty: "(\<And>x. x \<in> set xs \<Longrightarrow> f x = []) \<Longrightarrow> concat (map f xs) = []"
  by (induction xs) simp_all

lemma page_without_match_rows:
  assumes "page_without_match pg"
  shows "targets_of_page md pg = []" and "language_of_page md pg = []"
    and "initiatives_of_page md pg = []" and "impacts_of_page md pg = []"
proof -
  from assms have t: "\<And>p. p \<in> set target_keywords \<Longrightarrow> finditer True p (page_text pg) = []"
    and l: "\<And>ph. ph \<in> set (commitment_strong @ commitment_moderate @ commitment_weak) \<Longrightarrow>
               finditer True (re_escape ph) (page_text pg) = []"
    and i: "\<And>p. p \<in> set initiative_keywords \<Longrightarrow> finditer True p (page_text pg) = []"
    and a: "\<And>area keywords kw. \<lbrakk>(area, keywords) \<in> set impact_keywords; kw \<in> set keywords\<rbrakk> \<Longrightarrow>
               finditer False (re_escape (lower kw)) (lower (page_text pg)) = []"
    by (auto simp: page_without_match_def list_all_iff)
  show "targets_of_page md pg = []"
    unfolding targets_of_page_def by (rule concat_map_empty) (simp add: t)
  have L: "language_of_phrases md pg s phs = []"
    if "set phs \<subseteq> set (commitment_strong @ commitment_moderate @ commitment_weak)" for s phs
    unfolding language_of_phrases_def using that by (intro concat_map_empty) (auto simp: l)
  have "language_of_phrases md pg ''Strong'' commitment_strong = []"
    "language_of_phrases md pg ''Moderate'' commitment_moderate = []"
    "language_of_phrases md pg ''Weak/Hedging'' commitment_weak = []"
    by (rule L, auto)+
  then show "language_of_page md pg = []"
    by (simp add: language_of_page_def)
  show "initiatives_of_page md pg = []"
    unfolding initiatives_of_page_def by (rule concat_map_empty) (simp add: i)
  show "impacts_of_page md pg = []"
    unfolding impacts_of_page_def
  proof (rule concat_map_empty)
    fix x assume x: "x \<in> set impact_keywords"
    obtain area kws where ak: "x = (area, kws)" by (cases x)
    have "concat (map (impact_of_keyword md pg area) kws) = []"
    proof (rule concat_map_empty)
      fix kw assume "kw \<in> set kws"
      with x ak have "finditer False (re_escape (lower kw)) (lower (page_text pg)) = []"
        by (simp add: a)
      then show "impact_of_keyword md pg area kw = []"
        by (simp add: impact_of_keyword_def)
    qed
    with ak show "(case x of (area, keywords) \<Rightarrow> concat (map (impact_of_keyword md pg area) keywords)) = []"
      by simp
  qed
qed

lemma digit_char_0: "digit_char 0 = CHR ''0''"
  by code_simp

lemma show_nat_0: "show_nat 0 = ''0''"
  by (simp add: show_nat.simps digit_char_0)

text \<open>The statistics file of a run that has collected nothing.\<close>

definition empty_statistics :: "string \<Rightarrow> string" where
  "empty_statistics now =
     ''RALPH LAUREN ESG ANALYSIS - EXTRACTION STATISTICS'' @ [newline]
     @ replicate 80 CHR ''='' @ [newline, newline]
     @ ''Extraction Date: '' @ now @ [newline, newline]
     @ ''Total Targets/Goals Extracted: 0'' @ [newline]
     @ ''Total Language Patterns Identified: 0'' @ [newline]
     @ ''Total Initiatives Cataloged: 0'' @ [newline]
     @ ''Total Impact Area Mentions: 0'' @ [newline, newline]"

text \<open>
  Claim C7. A run over one file that parses and has no match on any page ends without
  an error (the console has the line of the file and no error line), leaves the four
  collections empty, writes none of the four CSV files, so no row at all, and writes the
  statistics file with the four counts 0.
\<close>

theorem run_without_match:
  assumes "parse_text_file file = Inr (md, pages)"
    and "list_all page_without_match pages"
  shows "process_all_text_files pd now [(name, file)] init_extractor =
     (\<lparr>targets_data = [], language_data = [], initiatives_data = [], impact_areas_data = [],
       console = [Found 1, Processing name, ExtractedFrom (length pages), SavedStatistics]\<rparr>,
      \<lparr>targets_csv = None, language_csv = None, initiatives_csv = None, impact_csv = None,
       statistics_txt = Some (empty_statistics now)\<rparr>)"
proof -
  from assms(2) have e: "concat (map (targets_of_page md) pages) = []"
    "concat (map (language_of_page md) pages) = []"
    "concat (map (initiatives_of_page md) pages) = []"
    "concat (map (impacts_of_page md) pages) = []"
    by (auto simp: list_all_iff page_without_match_rows intro!: concat_map_empty)
  from assms(1) have p: "parse_text_file (snd (name, file)) = Inr (md, pages)" by simp
  show ?thesis
    by (simp add: process_all_text_files_def Let_def process_file_parsed[OF p] e
        init_extractor_def save_all_data_def create_summary_statistics_def
        empty_statistics_def show_nat_0)
qed

definition c7_content :: string where
  "c7_content =
     ''Year: 2024'' @ [newline]
     @ replicate 80 CHR ''='' @ [newline] @ ''[PAGE 1 OF 1]'' @ [newline]
     @ replicate 80 CHR ''='' @ [newline] @ ''Thank you.'' @ [newline]"

definition c7_page :: page where
  "c7_page = \<lparr>page.page_number = 1, total_pages = 1, page_text = newline # ''Thank you.'' @ [newline]\<rparr>"

lemma c7_parse: "parse_text_file (Inr c7_content) = Inr ([(''year'', ''2024'')], [c7_page])"
  unfolding c7_content_def c7_page_def by code_simp

lemma c7_no_match: "list_all page_without_match [c7_page]"
  unfolding c7_page_def by code_simp

theorem run_without_match_witness:
  "parse_text_file (Inr c7_content) = Inr ([(''year'', ''2024'')], [c7_page]) \<and>
   list_all page_without_match [c7_page] \<and>
   process_all_text_files plain_pandas some_time [(''2024_letter_extracted.txt'', Inr c7_content)]
       init_extractor =
     (\<lparr>targets_data = [], language_data = [], initiatives_data = [], impact_areas_data = [],
       console = [Found 1, Processing ''2024_letter_extracted.txt'', ExtractedFrom (length [c7_page]),
                  SavedStatistics]\<rparr>,
      \<lparr>targets_csv = None, language_csv = None, initiatives_csv = None, impact_csv = None,
       statistics_txt = Some (empty_statistics some_time)\<rparr>)"
  using run_without_match[OF c7_parse c7_no_match, of plain_pandas some_time "''2024_letter_extracted.txt''"]
    c7_parse c7_no_match
  by simp

section \<open>Stage 3: \<open>04_quantitative_analysis_visualization.py\<close>\<close>

subsection \<open>The summary table of \<open>analyze_targets_over_time\<close>\<close>

text \<open>
  A cell of a float column: a number, \<open>NaN\<close> or an infinity. The numbers are exact
  (rationals): the counts and their differences are exact in a float column too, and the
  rounding of the quotient is outside this model.
\<close>

datatype fval = Val rat | NaN | PosInf | NegInf







record 'y summary_row =
  Year :: 'y
  Target_Mentions :: nat
  YoY_Change :: fval
  YoY_Pct_Change :: fval


section \<open>Year-over-year change\<close>













subsection \<open>\<open>load_data\<close> and \<open>run_all_analyses\<close>\<close>


datatype table = Targets | Language | Initiatives | Impact





















section \<open>A missing table\<close>







lemma bind_Inl: "bind (Inl e) f = Inl e"
  by (simp add: bind_def)
















section \<open>Scanning a text for the matches of a pattern\<close>

lemma match_here_split:
  assumes "match_here ic r ma b s = Some m"
  shows "s = m_txt m @ m_post m" and "m_pre m = b"
proof -
  from match_here_mem[OF assms] obtain cf where cf: "cf \<in> set (ms ic r (b, s, []))"
    and m: "m = mk_match b s cf"
    by blast
  from ms_suffix[OF cf] obtain mm where mm: "s = mm @ fst (snd cf)" by auto
  obtain b' s' g' where c: "cf = (b', s', g')" by (cases cf)
  from mm c m show "s = m_txt m @ m_post m" by simp
  from c m show "m_pre m = b" by simp
qed

lemma finditer_from_Nil:
  "match_here ic r ma b [] = None \<Longrightarrow> finditer_from ic r ma b [] = []"
  by (subst finditer_from.simps) simp

lemma finditer_from_None:
  "match_here ic r ma b (c # s) = None \<Longrightarrow>
     finditer_from ic r ma b (c # s) = finditer_from ic r False (c # b) s"
  by (subst finditer_from.simps, subst (2) finditer_from.simps) simp

lemma search_from_Some:
  "match_here ic r ma b s = Some m \<Longrightarrow> search_from ic r ma b s = Some m"
  by (cases s) simp_all

lemma finditer_from_Some:
  "match_here ic r ma b s = Some m \<Longrightarrow>
     finditer_from ic r ma b s =
       m # finditer_from ic r (m_txt m = []) (rev (m_txt m) @ b) (m_post m)"
  using match_here_split(2)[of ic r ma b s m]
  by (subst finditer_from.simps) (simp add: search_from_Some)

subsection \<open>Literal patterns\<close>

text \<open>The text starts with the word, up to case when \<open>ic\<close> is set.\<close>

fun starts_with :: "bool \<Rightarrow> string \<Rightarrow> string \<Rightarrow> bool" where
  "starts_with ic [] s = True"
| "starts_with ic (c # w) [] = False"
| "starts_with ic (c # w) (x # s) = (char_eq ic c x \<and> starts_with ic w s)"

lemma starts_with_length: "starts_with ic w s \<Longrightarrow> length w \<le> length s"
  by (induction ic w s rule: starts_with.induct) simp_all

lemma starts_with_prefix: "starts_with False w s \<longleftrightarrow> prefix w s"
  by (induction "False" w s rule: starts_with.induct) (simp_all add: char_eq_def)

lemma ms_lit:
  "ms ic (lit w) (b, s, g) =
     (if starts_with ic w s then [(rev (take (length w) s) @ b, drop (length w) s, g)] else [])"
proof (induction w arbitrary: b s)
  case Nil
  then show ?case by (simp add: lit_def)
next
  case (Cons c w)
  have "ms ic (lit (c # w)) (b, s, g) = concat (map (ms ic (lit w)) (ms ic (Chr c) (b, s, g)))"
    by (simp add: lit_def ms_seqs_Cons)
  then show ?case
    by (cases s) (simp_all add: Cons.IH)
qed

definition lit_match :: "string \<Rightarrow> nat \<Rightarrow> string \<Rightarrow> rmatch" where
  "lit_match b n s = \<lparr>m_pre = b, m_txt = take n s, m_post = drop n s, m_groups = []\<rparr>"

lemma match_here_lit:
  "match_here ic (lit w) False b s =
     (if starts_with ic w s then Some (lit_match b (length w) s) else None)"
  by (simp add: match_here_def ms_lit lit_match_def starts_with_length)

text \<open>
  \<open>s.find(w)\<close> and \<open>s.count(w)\<close> of Python for a word that is not empty: the index of
  the first occurrence, and the number of occurrences found from left to right, each
  search starting where the occurrence before it ends.
\<close>

fun find_sub :: "string \<Rightarrow> string \<Rightarrow> nat option" where
  "find_sub w [] = (if w = [] then Some 0 else None)"
| "find_sub w (c # s) = (if prefix w (c # s) then Some 0 else map_option Suc (find_sub w s))"

lemma find_sub_Some:
  "find_sub w s = Some i \<Longrightarrow> prefix w (drop i s) \<and> i + length w \<le> length s"
proof (induction s arbitrary: i)
  case Nil
  then show ?case by (simp split: if_splits)
next
  case (Cons c s)
  show ?case
  proof (cases "prefix w (c # s)")
    case True
    with Cons.prems show ?thesis by (auto dest: prefix_length_le)
  next
    case False
    with Cons.prems obtain j where "find_sub w s = Some j" "i = Suc j" by auto
    with Cons.IH[of j] show ?thesis by simp
  qed
qed

function count_sub :: "string \<Rightarrow> string \<Rightarrow> nat" where
  "count_sub w s =
     (if w = [] then Suc (length s)
      else case find_sub w s of
             None \<Rightarrow> 0
           | Some i \<Rightarrow> Suc (count_sub w (drop (i + length w) s)))"
  by pat_completeness auto
termination
proof (relation "measure (\<lambda>(w, s). length s)", goal_cases)
  case 1
  then show ?case by simp
next
  case (2 w s i)
  from find_sub_Some[OF 2(2)] 2(1) show ?case by (cases w) auto
qed

declare count_sub.simps [simp del]

lemma finditer_from_lit_none:
  "\<lbrakk>w \<noteq> []; find_sub w s = None\<rbrakk> \<Longrightarrow> finditer_from False (lit w) False b s = []"
proof (induction s arbitrary: b)
  case Nil
  then have "\<not> starts_with False w []" by (cases w) simp_all
  then show ?case by (simp add: finditer_from_Nil match_here_lit)
next
  case (Cons c s)
  from Cons.prems have np: "\<not> prefix w (c # s)" and n: "find_sub w s = None"
    by (auto split: if_splits)
  from np have "match_here False (lit w) False b (c # s) = None"
    by (simp add: match_here_lit starts_with_prefix)
  then show ?case
    by (simp add: finditer_from_None Cons.IH[OF Cons.prems(1) n])
qed

lemma finditer_from_lit_some:
  "\<lbrakk>w \<noteq> []; find_sub w s = Some i\<rbrakk> \<Longrightarrow>
     finditer_from False (lit w) False b s =
       lit_match (rev (take i s) @ b) (length w) (drop i s)
       # finditer_from False (lit w) False (rev (take (i + length w) s) @ b) (drop (i + length w) s)"
proof (induction s arbitrary: b i)
  case Nil
  then show ?case by (simp split: if_splits)
next
  case (Cons c s)
  show ?case
  proof (cases "prefix w (c # s)")
    case True
    with Cons.prems have i: "i = 0" by simp
    from True have m: "match_here False (lit w) False b (c # s) = Some (lit_match b (length w) (c # s))"
      by (simp add: match_here_lit starts_with_prefix)
    from True Cons.prems(1) have "take (length w) (c # s) = w"
      by (metis append_eq_conv_conj prefix_def)
    with Cons.prems(1) have ne: "m_txt (lit_match b (length w) (c # s)) \<noteq> []"
      by (simp add: lit_match_def)
    show ?thesis
      using ne by (simp add: finditer_from_Some[OF m] i) (simp add: lit_match_def)
  next
    case False
    with Cons.prems obtain j where j: "find_sub w s = Some j" and i: "i = Suc j" by auto
    from False have "match_here False (lit w) False b (c # s) = None"
      by (simp add: match_here_lit starts_with_prefix)
    then show ?thesis
      by (simp add: finditer_from_None Cons.IH[OF Cons.prems(1) j] i)
  qed
qed

lemma length_finditer_from_lit:
  "w \<noteq> [] \<Longrightarrow> length (finditer_from False (lit w) False b s) = count_sub w s"
proof (induction "length s" arbitrary: s b rule: less_induct)
  case less
  show ?case
  proof (cases "find_sub w s")
    case None
    with less.prems show ?thesis
      by (simp add: finditer_from_lit_none count_sub.simps[of w s])
  next
    case (Some i)
    from find_sub_Some[OF Some] less.prems have "length (drop (i + length w) s) < length s"
      by (cases w) auto
    from less.hyps[OF this less.prems] Some less.prems show ?thesis
      by (simp add: finditer_from_lit_some count_sub.simps[of w s])
  qed
qed

text \<open>The matches of an escaped keyword: as many as \<open>count\<close> says, the first where \<open>find\<close> says.\<close>

lemma finditer_keyword:
  assumes "w \<noteq> []"
  shows "length (finditer False (re_escape w) s) = count_sub w s"
    and "find_sub w s = None \<Longrightarrow> finditer False (re_escape w) s = []"
    and "find_sub w s = Some i \<Longrightarrow>
           \<exists>ms'. finditer False (re_escape w) s = lit_match (rev (take i s)) (length w) (drop i s) # ms'"
  using assms
  by (simp_all add: finditer_def re_escape_def length_finditer_from_lit finditer_from_lit_none
      finditer_from_lit_some)

lemma window_lit_match:
  assumes "i + n \<le> length s"
  shows "window k s (lit_match (rev (take i s)) n (drop i s)) =
           slice s (i - k) (min (length s) (i + n + k))"
proof -
  from assms have "length (take i s) = i" "length (take n (drop i s)) = n" by simp_all
  then show ?thesis
    by (simp add: window_def m_start_def m_end_def lit_match_def)
qed

lemma length_lower [simp]: "length (lower s) = length s"
  by (simp add: lower_def)

lemma lower_Nil_iff [simp]: "lower s = [] \<longleftrightarrow> s = []"
  by (simp add: lower_def)

text \<open>The row of a keyword that occurs on the page, from \<open>find\<close> and \<open>count\<close>.\<close>

definition impact_row :: "metadata \<Rightarrow> page \<Rightarrow> string \<Rightarrow> string \<Rightarrow> nat \<Rightarrow> impact_entry" where
  "impact_row md pg area kw i =
     \<lparr>year = md_get md ''year'',
      document = md_get md ''document_type'',
      page_number = page.page_number pg,
      impact_area = area,
      keyword = kw,
      occurrence_count = count_sub (lower kw) (lower (page_text pg)),
      example_context =
        take 200 (collapse (slice (lower (page_text pg)) (i - 100)
                              (min (length (page_text pg)) (i + length kw + 100))))\<rparr>"

lemma impact_of_keyword_eq:
  assumes "kw \<noteq> []"
  shows "impact_of_keyword md pg area kw =
     (case find_sub (lower kw) (lower (page_text pg)) of
        None \<Rightarrow> []
      | Some i \<Rightarrow> [impact_row md pg area kw i])"
proof (cases "find_sub (lower kw) (lower (page_text pg))")
  case None
  with assms show ?thesis
    by (simp add: impact_of_keyword_def finditer_keyword(2))
next
  case (Some i)
  from assms have ne: "lower kw \<noteq> []" by simp
  from finditer_keyword(3)[OF ne Some] obtain ms' where
    f: "finditer False (re_escape (lower kw)) (lower (page_text pg)) =
          lit_match (rev (take i (lower (page_text pg)))) (length (lower kw)) (drop i (lower (page_text pg))) # ms'"
    by blast
  from finditer_keyword(1)[OF ne, of "lower (page_text pg)"] f
  have c: "Suc (length ms') = count_sub (lower kw) (lower (page_text pg))" by simp
  from find_sub_Some[OF Some] have le: "i + length kw \<le> length (lower (page_text pg))"
    by simp
  show ?thesis
    using c by (simp add: impact_of_keyword_def Let_def f Some impact_row_def window_lit_match[OF le])
qed

lemma count_sub_positive: "\<lbrakk>w \<noteq> []; find_sub w s = Some i\<rbrakk> \<Longrightarrow> 0 < count_sub w s"
  by (simp add: count_sub.simps[of w s])

section \<open>The rows of the impact areas\<close>

text \<open>The pairs of an area and one of its keywords, in the order of the two loops.\<close>

definition area_keywords :: "(string \<times> string) list" where
  "area_keywords = concat (map (\<lambda>(area, kws). map (Pair area) kws) impact_keywords)"

lemma area_keywords_distinct: "distinct area_keywords"
  unfolding area_keywords_def impact_keywords_def by simp

lemma area_keywords_nonempty: "(area, kw) \<in> set area_keywords \<Longrightarrow> kw \<noteq> []"
  unfolding area_keywords_def impact_keywords_def by auto

definition key_of :: "impact_entry \<Rightarrow> nat \<times> string \<times> string" where
  "key_of r = (entry.page_number r, impact_area r, keyword r)"

definition occurs_on :: "page \<Rightarrow> string \<Rightarrow> bool" where
  "occurs_on pg kw = (find_sub (lower kw) (lower (page_text pg)) \<noteq> None)"

lemma impacts_of_page_pairs:
  "impacts_of_page md pg =
     concat (map (\<lambda>(area, kw). impact_of_keyword md pg area kw) area_keywords)"
proof -
  have "concat (map (\<lambda>(area, kws). concat (map (impact_of_keyword md pg area) kws)) tbl) =
        concat (map (\<lambda>(area, kw). impact_of_keyword md pg area kw)
                    (concat (map (\<lambda>(area, kws). map (Pair area) kws) tbl)))" for tbl
    by (induction tbl) (auto simp: comp_def)
  then show ?thesis by (simp add: impacts_of_page_def area_keywords_def)
qed

lemma impacts_of_pairs:
  assumes "\<forall>p \<in> set ps. snd p \<noteq> []"
  shows "concat (map (\<lambda>(area, kw). impact_of_keyword md pg area kw) ps) =
     map (\<lambda>(area, kw). impact_row md pg area kw
                          (the (find_sub (lower kw) (lower (page_text pg)))))
         (filter (\<lambda>(area, kw). occurs_on pg kw) ps)"
  using assms
proof (induction ps)
  case Nil
  show ?case by simp
next
  case (Cons p ps)
  obtain area kw where p: "p = (area, kw)" by (cases p)
  with Cons.prems have "kw \<noteq> []" by simp
  then have "impact_of_keyword md pg area kw =
      (if occurs_on pg kw
       then [impact_row md pg area kw (the (find_sub (lower kw) (lower (page_text pg))))] else [])"
    by (auto simp: impact_of_keyword_eq occurs_on_def)
  with Cons p show ?case by simp
qed

lemma impacts_of_page_rows:
  "impacts_of_page md pg =
     map (\<lambda>(area, kw). impact_row md pg area kw
                          (the (find_sub (lower kw) (lower (page_text pg)))))
         (filter (\<lambda>(area, kw). occurs_on pg kw) area_keywords)"
  unfolding impacts_of_page_pairs
  by (rule impacts_of_pairs) (auto dest: area_keywords_nonempty)

lemma keys_of_page:
  "map key_of (impacts_of_page md pg) =
     map (\<lambda>(area, kw). (page.page_number pg, area, kw))
         (filter (\<lambda>(area, kw). occurs_on pg kw) area_keywords)"
  by (simp add: impacts_of_page_rows key_of_def impact_row_def comp_def split_beta)

lemma keys_of_page_distinct: "distinct (map key_of (impacts_of_page md pg))"
proof -
  have "inj_on (\<lambda>(area, kw). (page.page_number pg, area, kw)) A" for A :: "(string \<times> string) set"
    by (auto simp: inj_on_def)
  then show ?thesis
    by (simp add: keys_of_page distinct_map area_keywords_distinct)
qed

lemma keys_of_page_number: "k \<in> set (map key_of (impacts_of_page md pg)) \<Longrightarrow> fst k = page.page_number pg"
  by (auto simp: keys_of_page)

lemma keys_of_pages_distinct:
  "distinct (map page.page_number pages) \<Longrightarrow>
     distinct (map key_of (concat (map (impacts_of_page md) pages)))"
proof (induction pages)
  case Nil
  show ?case by simp
next
  case (Cons pg pages)
  have "set (map key_of (impacts_of_page md pg)) \<inter>
        set (map key_of (concat (map (impacts_of_page md) pages))) = {}"
  proof (rule ccontr)
    assume "\<not> ?thesis"
    then obtain k where k1: "k \<in> set (map key_of (impacts_of_page md pg))"
      and k2: "k \<in> set (map key_of (concat (map (impacts_of_page md) pages)))"
      by blast
    from k2 obtain pg' where pg': "pg' \<in> set pages" and "k \<in> set (map key_of (impacts_of_page md pg'))"
      by auto
    with k1 have "page.page_number pg = page.page_number pg'"
      using keys_of_page_number by metis
    with pg' Cons.prems show False by auto
  qed
  with Cons keys_of_page_distinct[of md pg] show ?case by simp
qed

text \<open>
  Claim C4, as the code has it. In one call of the pass on pages with different page
  numbers, no two rows have the same page number, area and keyword. Every row of the
  pass comes from a page and a keyword that occurs on the lower-cased page; its count
  is the number of occurrences of the keyword there, counted from left to right without
  overlap as \<open>str.count\<close> does, which is at least 1; and its context is the window of
  100 characters around the first occurrence, cleaned up and cut at 200 characters.
\<close>

theorem one_impact_row_per_page_and_keyword:
  assumes "distinct (map page.page_number pages)"
  shows "distinct (map key_of (impact_areas_data (extract_impact_areas pages md init_extractor))) \<and>
     (\<forall>r \<in> set (impact_areas_data (extract_impact_areas pages md init_extractor)).
        \<exists>pg \<in> set pages. \<exists>i.
          (impact_area r, keyword r) \<in> set area_keywords \<and>
          entry.page_number r = page.page_number pg \<and>
          find_sub (lower (keyword r)) (lower (page_text pg)) = Some i \<and>
          occurrence_count r = count_sub (lower (keyword r)) (lower (page_text pg)) \<and>
          1 \<le> occurrence_count r \<and>
          example_context r =
            take 200 (collapse (slice (lower (page_text pg)) (i - 100)
                                  (min (length (page_text pg)) (i + length (keyword r) + 100)))))"
proof (intro conjI ballI)
  show "distinct (map key_of (impact_areas_data (extract_impact_areas pages md init_extractor)))"
    using keys_of_pages_distinct[OF assms]
    by (simp add: extract_impact_areas_def init_extractor_def)
next
  fix r assume "r \<in> set (impact_areas_data (extract_impact_areas pages md init_extractor))"
  then obtain pg where pg: "pg \<in> set pages" and r: "r \<in> set (impacts_of_page md pg)"
    by (auto simp: extract_impact_areas_def init_extractor_def)
  from r obtain area kw where ak: "(area, kw) \<in> set area_keywords" and oc: "occurs_on pg kw"
    and row: "r = impact_row md pg area kw (the (find_sub (lower kw) (lower (page_text pg))))"
    by (auto simp: impacts_of_page_rows)
  from oc obtain i where i: "find_sub (lower kw) (lower (page_text pg)) = Some i"
    by (auto simp: occurs_on_def)
  from area_keywords_nonempty[OF ak] have "lower kw \<noteq> []" by simp
  from count_sub_positive[OF this i] have "1 \<le> count_sub (lower kw) (lower (page_text pg))"
    by simp
  with ak i row pg show "\<exists>pg \<in> set pages. \<exists>i.
          (impact_area r, keyword r) \<in> set area_keywords \<and>
          entry.page_number r = page.page_number pg \<and>
          find_sub (lower (keyword r)) (lower (page_text pg)) = Some i \<and>
          occurrence_count r = count_sub (lower (keyword r)) (lower (page_text pg)) \<and>
          1 \<le> occurrence_count r \<and>
          example_context r =
            take 200 (collapse (slice (lower (page_text pg)) (i - 100)
                                  (min (length (page_text pg)) (i + length (keyword r) + 100))))"
    by (auto simp: impact_row_def intro!: bexI[of _ pg])
qed

theorem one_impact_row_per_page_and_keyword_witness:
  "distinct (map page.page_number [c3_page]) \<and>
   distinct (map key_of (impact_areas_data (extract_impact_areas [c3_page] [] init_extractor))) \<and>
   c3_impact \<in> set (impact_areas_data (extract_impact_areas [c3_page] [] init_extractor)) \<and>
   (\<exists>i. (impact_area c3_impact, keyword c3_impact) \<in> set area_keywords \<and>
        entry.page_number c3_impact = page.page_number c3_page \<and>
        find_sub (lower (keyword c3_impact)) (lower (page_text c3_page)) = Some i \<and>
        occurrence_count c3_impact = count_sub (lower (keyword c3_impact)) (lower (page_text c3_page)) \<and>
        1 \<le> occurrence_count c3_impact \<and>
        example_context c3_impact =
          take 200 (collapse (slice (lower (page_text c3_page)) (i - 100)
                                (min (length (page_text c3_page)) (i + length (keyword c3_impact) + 100)))))"
proof -
  have h: "distinct (map page.page_number [c3_page])" by simp
  have m: "c3_impact \<in> set (impact_areas_data (extract_impact_areas [c3_page] [] init_extractor))"
    by (simp add: c3_impact_run)
  from one_impact_row_per_page_and_keyword[OF h, of "[]"] m h show ?thesis
    by fastforce
qed

text \<open>
  The claim as it is written speaks of all the rows of a run and of the page number.
  A run over two documents calls the pass once for each of them on the same collection,
  and the first pages of both documents are page 1.
\<close>

definition c4_first_page_a :: page where
  "c4_first_page_a = \<lparr>page.page_number = 1, total_pages = 3, page_text = ''Water''\<rparr>"

definition c4_first_page_b :: page where
  "c4_first_page_b = \<lparr>page.page_number = 1, total_pages = 5, page_text = ''water''\<rparr>"

definition c4_two_documents :: extractor where
  "c4_two_documents =
     extract_impact_areas [c4_first_page_b] [(''year'', ''2023'')]
       (extract_impact_areas [c4_first_page_a] [(''year'', ''2022'')] init_extractor)"

lemma c4_two_documents_keys:
  "map key_of (impact_areas_data c4_two_documents) =
     [(1, ''Water'', ''water''), (1, ''Water'', ''water'')]"
  unfolding c4_two_documents_def c4_first_page_a_def c4_first_page_b_def by code_simp

theorem same_page_number_in_two_documents:
  "\<not> distinct (map key_of (impact_areas_data c4_two_documents))"
  by (simp add: c4_two_documents_keys)

section \<open>The years of a target\<close>

text \<open>
  \<open>\b(20\d{2})\b\<close> matches at a position when the text goes on with \<open>20\<close> and two
  digits, and neither the character before the position nor the one after the four
  characters is a word character.
\<close>

fun year_at :: "string \<Rightarrow> string \<Rightarrow> bool" where
  "year_at b (c1 # c2 # c3 # c4 # rest) =
     (c1 = CHR ''2'' \<and> c2 = CHR ''0'' \<and> is_digit c3 \<and> is_digit c4 \<and>
      \<not> word_before b \<and> \<not> word_before rest)"
| "year_at b s = False"

text \<open>Every position of the text at which this holds, from left to right.\<close>

fun all_years :: "string \<Rightarrow> string \<Rightarrow> string list" where
  "all_years b [] = []"
| "all_years b (c # s) = (if year_at b (c # s) then [take 4 (c # s)] else []) @ all_years (c # b) s"

lemma is_digit_word: "is_digit c \<Longrightarrow> is_word c"
  by (simp add: is_digit_def is_word_def Let_def)

lemma digit_2_0: "is_digit CHR ''2''" "is_digit CHR ''0''"
  by (simp_all add: is_digit_def code_def)

lemma char_eq_False [simp]: "char_eq False c x \<longleftrightarrow> c = x"
  by (simp add: char_eq_def)

lemma ms_year_pattern:
  "ms False year_pattern (b, s, []) =
     (if year_at b s then [(rev (take 4 s) @ b, drop 4 s, [(1, take 4 s)])] else [])"
proof (cases "\<exists>c1 c2 c3 c4 rest. s = c1 # c2 # c3 # c4 # rest")
  case True
  then obtain c1 c2 c3 c4 rest where s: "s = c1 # c2 # c3 # c4 # rest" by blast
  have w: "is_word CHR ''2''" using digit_2_0(1) by (rule is_digit_word)
  show ?thesis
    unfolding year_pattern_def s
    by (auto simp: ms_seqs_Cons ms_lit Times_def Digit_def at_boundary_def is_digit_word w
        eval_nat_numeral)
next
  case False
  then have n: "\<not> year_at b s"
    by (cases "(b, s)" rule: year_at.cases) auto
  from False have short: "length s < 4"
    by (cases s; cases "tl s"; cases "tl (tl s)"; cases "tl (tl (tl s))") auto
  have "ms False (seqs [lit ''20'', Times 2 Digit]) cf = []" if "length (fst (snd cf)) < 4" for cf
  proof -
    obtain b' s' g' where cf: "cf = (b', s', g')" by (cases cf)
    with that have "length s' < 4" by simp
    then show ?thesis
      unfolding cf
      by (cases s'; cases "tl s'"; cases "tl (tl s')"; cases "tl (tl (tl s'))")
         (auto simp: ms_seqs_Cons ms_lit Times_def Digit_def eval_nat_numeral)
  qed
  with short n show ?thesis
    unfolding year_pattern_def
    by (auto simp: ms_seqs_Cons split: if_splits)
qed

definition year_match :: "string \<Rightarrow> string \<Rightarrow> rmatch" where
  "year_match b s = \<lparr>m_pre = b, m_txt = take 4 s, m_post = drop 4 s, m_groups = [(1, take 4 s)]\<rparr>"

lemma match_here_year:
  "match_here False year_pattern False b s = (if year_at b s then Some (year_match b s) else None)"
proof (cases "year_at b s")
  case True
  then have "4 \<le> length s" by (cases "(b, s)" rule: year_at.cases) auto
  with True show ?thesis
    by (simp add: match_here_def ms_year_pattern year_match_def)
next
  case False
  then show ?thesis by (simp add: match_here_def ms_year_pattern)
qed

lemma all_years_skip:
  assumes "year_at b (c1 # c2 # c3 # c4 # rest)"
  shows "all_years b (c1 # c2 # c3 # c4 # rest) =
           [c1, c2, c3, c4] # all_years (c4 # c3 # c2 # c1 # b) rest"
proof -
  from assms have d: "is_word c1" "is_word c2" "is_word c3"
    using digit_2_0 by (auto intro: is_digit_word)
  have "\<not> year_at (c1 # b) (c2 # c3 # c4 # rest)" using d(1)
    by (cases "(c1 # b, c2 # c3 # c4 # rest)" rule: year_at.cases) auto
  moreover have "\<not> year_at (c2 # c1 # b) (c3 # c4 # rest)" using d(2)
    by (cases "(c2 # c1 # b, c3 # c4 # rest)" rule: year_at.cases) auto
  moreover have "\<not> year_at (c3 # c2 # c1 # b) (c4 # rest)" using d(3)
    by (cases "(c3 # c2 # c1 # b, c4 # rest)" rule: year_at.cases) auto
  ultimately show ?thesis using assms by simp
qed

definition group1 :: "rmatch \<Rightarrow> string" where
  "group1 m = (case m_group m 1 of None \<Rightarrow> [] | Some x \<Rightarrow> x)"

lemma finditer_from_year:
  "map group1 (finditer_from False year_pattern False b s) = all_years b s"
proof (induction "length s" arbitrary: s b rule: less_induct)
  case less
  show ?case
  proof (cases "year_at b s")
    case True
    then obtain c1 c2 c3 c4 rest where s: "s = c1 # c2 # c3 # c4 # rest"
      by (cases "(b, s)" rule: year_at.cases) auto
    from True have m: "match_here False year_pattern False b s = Some (year_match b s)"
      by (simp add: match_here_year)
    have "length rest < length s" by (simp add: s)
    from less.hyps[OF this, of "c4 # c3 # c2 # c1 # b"]
    have ih: "map group1 (finditer_from False year_pattern False (c4 # c3 # c2 # c1 # b) rest) =
        all_years (c4 # c3 # c2 # c1 # b) rest" .
    have sk: "all_years b s = [c1, c2, c3, c4] # all_years (c4 # c3 # c2 # c1 # b) rest"
      unfolding s by (rule all_years_skip[OF True[unfolded s]])
    have fi: "finditer_from False year_pattern False b s =
        year_match b s # finditer_from False year_pattern False (c4 # c3 # c2 # c1 # b) rest"
      using finditer_from_Some[OF m] by (simp add: year_match_def s)
    have g: "group1 (year_match b s) = [c1, c2, c3, c4]"
      by (simp add: s year_match_def group1_def m_group_def)
    show ?thesis
      by (simp only: fi sk list.map g ih)
  next
    case False
    then have m: "match_here False year_pattern False b s = None"
      by (simp add: match_here_year)
    show ?thesis
    proof (cases s)
      case Nil
      with m show ?thesis by (simp add: finditer_from_Nil)
    next
      case (Cons c s')
      with m False less.hyps[of s' "c # b"] show ?thesis
        by (simp add: finditer_from_None)
    qed
  qed
qed

lemma findall1_year: "findall1 False year_pattern s = all_years [] s"
  using finditer_from_year[of "[]" s]
  by (simp add: findall1_def finditer_def group1_def[abs_def])

text \<open>A word \<open>y\<close> of four characters stands in the text as such a year.\<close>

definition year_word_in :: "string \<Rightarrow> string \<Rightarrow> bool" where
  "year_word_in s y = (\<exists>pre suf. s = pre @ y @ suf \<and> length y = 4 \<and> year_at (rev pre) (y @ suf))"

lemma all_years_iff:
  "y \<in> set (all_years b s) \<longleftrightarrow>
     (\<exists>pre suf. s = pre @ y @ suf \<and> length y = 4 \<and> year_at (rev pre @ b) (y @ suf))"
proof (induction s arbitrary: b)
  case Nil
  show ?case by auto
next
  case (Cons c s)
  have here: "year_at b (c # s) \<Longrightarrow> length (take 4 (c # s)) = 4 \<and> c # s = take 4 (c # s) @ drop 4 (c # s)"
    by (cases "(b, c # s)" rule: year_at.cases) auto
  show ?case
  proof
    assume "y \<in> set (all_years b (c # s))"
    then consider "year_at b (c # s)" "y = take 4 (c # s)" | "y \<in> set (all_years (c # b) s)"
      by (auto split: if_splits)
    then show "\<exists>pre suf. c # s = pre @ y @ suf \<and> length y = 4 \<and> year_at (rev pre @ b) (y @ suf)"
    proof cases
      case 1
      with here have "c # s = [] @ y @ drop 4 (c # s)" "length y = 4" by simp_all
      moreover from 1 this have "year_at (rev [] @ b) (y @ drop 4 (c # s))" by simp
      ultimately show ?thesis by blast
    next
      case 2
      with Cons.IH[of "c # b"] obtain pre suf where
        "s = pre @ y @ suf" "length y = 4" "year_at (rev pre @ c # b) (y @ suf)"
        by auto
      then have "c # s = (c # pre) @ y @ suf \<and> length y = 4 \<and> year_at (rev (c # pre) @ b) (y @ suf)"
        by simp
      then show ?thesis by blast
    qed
  next
    assume "\<exists>pre suf. c # s = pre @ y @ suf \<and> length y = 4 \<and> year_at (rev pre @ b) (y @ suf)"
    then obtain pre suf where p: "c # s = pre @ y @ suf" "length y = 4"
      "year_at (rev pre @ b) (y @ suf)"
      by blast
    show "y \<in> set (all_years b (c # s))"
    proof (cases pre)
      case Nil
      with p have "year_at b (c # s)" "take 4 (c # s) = y" by simp_all
      then show ?thesis by simp
    next
      case (Cons c' pre')
      with p have "s = pre' @ y @ suf" "year_at (rev pre' @ c # b) (y @ suf)" by simp_all
      with p(2) Cons.IH[of "c # b"] have "y \<in> set (all_years (c # b) s)" by blast
      then show ?thesis by simp
    qed
  qed
qed

text \<open>
  Claim C2, as the code has it. The field \<open>target_years\<close> of a target row is the list,
  joined by a comma and a space, of the years that \<open>\b(20\d{2})\b\<close> finds in the context
  of the match before it is cut at 300 characters; a word \<open>y\<close> is in that list exactly when
  it stands in the context as \<open>20\<close> and two digits between two characters that are not
  word characters (or the ends of the context). Other four-digit numbers are not listed.
\<close>

theorem target_years_are_the_words_20dd:
  assumes "r \<in> set (targets_data (extract_targets_and_goals pages md init_extractor))"
  shows "\<exists>pg \<in> set pages. \<exists>pattern \<in> set target_keywords.
           \<exists>m \<in> set (finditer True pattern (page_text pg)). \<exists>years.
             target_years r = join_or_empty years \<and>
             target_text r = take 300 (collapse (strip (window 200 (page_text pg) m))) \<and>
             (\<forall>y. y \<in> set years \<longleftrightarrow>
                  year_word_in (collapse (strip (window 200 (page_text pg) m))) y)"
proof -
  from assms obtain pg pattern m where pg: "pg \<in> set pages"
    and pat: "pattern \<in> set target_keywords"
    and m: "m \<in> set (finditer True pattern (page_text pg))"
    and r: "r = target_of_match md pg m"
    by (auto simp: extract_targets_and_goals_def init_extractor_def targets_of_page_def)
  let ?ctx = "collapse (strip (window 200 (page_text pg) m))"
  have "target_years r = join_or_empty (all_years [] ?ctx)"
    by (simp add: r target_of_match_def Let_def findall1_year)
  moreover have "target_text r = take 300 ?ctx"
    by (simp add: r target_of_match_def Let_def)
  moreover have "\<forall>y. y \<in> set (all_years [] ?ctx) \<longleftrightarrow> year_word_in ?ctx y"
    by (simp add: all_years_iff year_word_in_def)
  ultimately show ?thesis using pg pat m by blast
qed

definition c2_page :: page where
  "c2_page = \<lparr>page.page_number = 4, total_pages = 9, page_text = ''Our goal for 2030: 40% below 1990 levels''\<rparr>"

definition c2_row :: target_entry where
  "c2_row = \<lparr>year = ''Unknown'', document = ''Unknown'', page_number = 4,
     source_file = ''Unknown'', target_text = ''Our goal for 2030: 40% below 1990 levels'',
     percentages = ''40'', target_years = ''2030'', target_entry.keyword_matched = ''goal''\<rparr>"

lemma c2_run: "targets_data (extract_targets_and_goals [c2_page] [] init_extractor) = [c2_row]"
  unfolding c2_page_def c2_row_def by code_simp

theorem target_years_are_the_words_20dd_witness:
  "c2_row \<in> set (targets_data (extract_targets_and_goals [c2_page] [] init_extractor)) \<and>
   (\<exists>pg \<in> set [c2_page]. \<exists>pattern \<in> set target_keywords.
      \<exists>m \<in> set (finditer True pattern (page_text pg)). \<exists>years.
        target_years c2_row = join_or_empty years \<and>
        target_text c2_row = take 300 (collapse (strip (window 200 (page_text pg) m))) \<and>
        (\<forall>y. y \<in> set years \<longleftrightarrow>
             year_word_in (collapse (strip (window 200 (page_text pg) m))) y))"
proof -
  have h: "c2_row \<in> set (targets_data (extract_targets_and_goals [c2_page] [] init_extractor))"
    by (simp add: c2_run)
  from target_years_are_the_words_20dd[OF h] h show ?thesis by blast
qed

text \<open>
  The claim as it is written lists every four-digit year of the window. On this page the
  base year 1990 stands in the context of the only target row, and the row lists 2030
  alone.
\<close>

theorem year_1990_is_not_listed:
  "targets_data (extract_targets_and_goals [c2_page] [] init_extractor) = [c2_row] \<and>
   target_text c2_row = ''Our goal for 2030: 40% below 1990 levels'' \<and>
   sublist ''1990'' (target_text c2_row) \<and>
   list_all is_digit ''1990'' \<and>
   target_years c2_row = ''2030'' \<and>
   \<not> sublist ''1990'' (target_years c2_row)"
proof -
  have "sublist ''1990'' ''Our goal for 2030: 40% below 1990 levels''" by code_simp
  moreover have "\<not> sublist ''1990'' ''2030''" by code_simp
  moreover have "list_all is_digit ''1990''" by code_simp
  ultimately show ?thesis by (simp add: c2_run) (simp add: c2_row_def)
qed

section \<open>The page marker\<close>

text \<open>
  The configuration reached from \<open>(b, s, _)\<close> after \<open>k\<close> characters.
\<close>

definition cfg :: "string \<Rightarrow> string \<Rightarrow> nat \<Rightarrow> (nat \<times> string) list \<Rightarrow> conf" where
  "cfg b s k g = (rev (take k s) @ b, drop k s, g)"


lemma ms_lit_cfg:
  "ms ic (lit w) (cfg b s k g) =
     (if starts_with ic w (drop k s) then [cfg b s (k + length w) g] else [])"
proof -
  have "rev (take (length w) (drop k s)) @ rev (take k s) = rev (take (k + length w) s)"
    by (simp add: take_add)
  then show ?thesis
    by (simp add: cfg_def ms_lit add.commute)
qed

lemma ms_Chr_cfg:
  "ms ic (Chr c) (cfg b s k g) =
     (if starts_with ic [c] (drop k s) then [cfg b s (k + 1) g] else [])"
  using ms_lit_cfg[of ic "[c]" b s k g] by (simp add: lit_def)


text \<open>Greedy digits, followed by something that does not start with a digit.\<close>

definition rejects_digit :: "(conf \<Rightarrow> conf list) \<Rightarrow> bool" where
  "rejects_digit K = (\<forall>b x s g. is_digit x \<longrightarrow> K (b, x # s, g) = [])"





lemma rejects_digit_lit:
  assumes "\<not> is_digit c"
  shows "rejects_digit (ms False (seqs (lit (c # w) # rs)))"
  unfolding rejects_digit_def
proof (intro allI impI)
  fix b x s g assume "is_digit x"
  with assms have "c \<noteq> x" by auto
  then show "ms False (seqs (lit (c # w) # rs)) (b, x # s, g) = []"
    by (simp add: ms_seqs_Cons ms_lit)
qed

lemma rejects_digit_Chr:
  assumes "\<not> is_digit c"
  shows "rejects_digit (ms False (seqs (Chr c # rs)))"
  using rejects_digit_lit[OF assms, of "[]" rs] by (simp add: lit_def)




text \<open>
  The marker read directly: 80 times \<open>=\<close>, the line \<open>[PAGE d1 OF d2]\<close> with two numbers,
  80 times \<open>=\<close>. The result is the two numbers and the length of the marker.
\<close>

definition equals80 :: string where
  "equals80 = replicate 80 CHR ''=''"

definition marker_at :: "string \<Rightarrow> (string \<times> string \<times> nat) option" where
  "marker_at s =
     (if prefix (equals80 @ newline # ''[PAGE '') s then
        (let d1 = takeWhile is_digit (drop 87 s); k2 = 87 + length d1 in
         if d1 \<noteq> [] \<and> prefix '' OF '' (drop k2 s) then
           (let d2 = takeWhile is_digit (drop (k2 + 4) s); k4 = k2 + 4 + length d2 in
            if d2 \<noteq> [] \<and> prefix (CHR '']'' # newline # equals80) (drop k4 s)
            then Some (d1, d2, k4 + 82) else None)
         else None)
      else None)"












lemma equals80_Cons: "equals80 = CHR ''='' # replicate 79 CHR ''=''"
proof -
  have "(80::nat) = Suc 79" by simp
  then show ?thesis unfolding equals80_def by (simp only: replicate_Suc)
qed




lemma marker_at_newline: "marker_at (newline # z) = None"
  by (simp add: marker_at_def equals80_Cons newline_def)


subsection \<open>Text in which no marker starts\<close>










subsection \<open>Where a marker can start\<close>










section \<open>Stage 1: the writer of \<open>02_pdf_text_extractor.py\<close>\<close>

text \<open>
  The marker that \<open>extract_with_pymupdf\<close> builds for the page with index \<open>page_num\<close>:
  \<open>f"\n{'='*80}\n[PAGE {page_num + 1} OF {total_pages}]\n{'='*80}\n"\<close>.
\<close>

definition page_marker :: "nat \<Rightarrow> nat \<Rightarrow> string" where
  "page_marker page_num n_pages =
     newline # replicate 80 CHR ''='' @ newline # ''[PAGE '' @ show_nat (page_num + 1)
       @ '' OF '' @ show_nat n_pages @ '']'' @ newline # replicate 80 CHR ''=''
       @ [newline]"

text \<open>One element of \<open>text_by_page\<close>: the keys \<open>page_number\<close>, \<open>text\<close> and \<open>marker\<close>.\<close>

record page_data =
  pd_page_number :: nat
  pd_text :: string
  pd_marker :: string

text \<open>
  The loop of \<open>extract_with_pymupdf\<close> over \<open>range(total_pages)\<close>; \<open>doc\<close> holds what
  \<open>page.get_text()\<close> gives for each page of the opened document, and \<open>n_pages\<close> is the
  \<open>total_pages\<close> of the source.
\<close>

definition text_by_page :: "string list \<Rightarrow> page_data list" where
  "text_by_page doc =
     (let n_pages = length doc in
      map (\<lambda>page_num. \<lparr>pd_page_number = page_num + 1, pd_text = doc ! page_num,
                         pd_marker = page_marker page_num n_pages\<rparr>)
          [0..<n_pages])"

text \<open>Opening or reading the document may fail: then the result is \<open>None, "pymupdf", False\<close>.\<close>

definition extract_with_pymupdf ::
    "error + string list \<Rightarrow> page_data list option \<times> string \<times> bool" where
  "extract_with_pymupdf opened =
     (case opened of
        Inl e \<Rightarrow> (None, ''pymupdf'', False)
      | Inr doc \<Rightarrow> (Some (text_by_page doc), ''pymupdf'', True))"





subsection \<open>Numbers and their digits\<close>











subsection \<open>The written file\<close>














subsection \<open>The header\<close>




subsection \<open>From the pieces to the pages\<close>




subsection \<open>The header fields\<close>










section \<open>Writing a document and reading it back\<close>








end
